theory Spec2Isabelle
  imports Complex_Main
begin

section \<open>Data model (app/schemas.py)\<close>

datatype Difficulty = BEGINNER | INTERMEDIATE | ADVANCED

datatype LearningStyle = VISUAL | READING | HANDS_ON

datatype ContentFormat = VIDEO | SLIDES | LECTURE

text \<open>The enums are \<^verbatim>\<open>(str, Enum)\<close> classes; these are the member values.\<close>

fun difficulty_value :: "Difficulty \<Rightarrow> string" where
  "difficulty_value BEGINNER = ''Beginner''"
| "difficulty_value INTERMEDIATE = ''Intermediate''"
| "difficulty_value ADVANCED = ''Advanced''"

fun learning_style_value :: "LearningStyle \<Rightarrow> string" where
  "learning_style_value VISUAL = ''visual''"
| "learning_style_value READING = ''reading''"
| "learning_style_value HANDS_ON = ''hands-on''"

fun content_format_value :: "ContentFormat \<Rightarrow> string" where
  "content_format_value VIDEO = ''video''"
| "content_format_value SLIDES = ''slides''"
| "content_format_value LECTURE = ''lecture''"

record ContentItem =
  ci_id :: int
  ci_title :: string
  ci_description :: string
  ci_difficulty :: Difficulty
  ci_duration_minutes :: int
  ci_tags :: "string list"
  ci_format :: ContentFormat

record UserProfile =
  up_user_id :: string
  up_name :: string
  up_goal :: string
  up_learning_style :: LearningStyle
  up_preferred_difficulty :: Difficulty
  up_time_per_day :: int
  up_viewed_content_ids :: "int list"
  up_interest_tags :: "string list"

text \<open>
  Scores are Python floats in the source. They are modelled as exact rationals: the
  arithmetic of the scorer (a quotient of two small counts, plus 0.2, minus a multiple
  of 0.15) is followed exactly, without the binary rounding of the floats.
\<close>

record Recommendation =
  rec_rank :: int
  rec_id :: int
  rec_title :: string
  rec_format :: string
  rec_difficulty :: string
  rec_duration_minutes :: int
  rec_tags :: "string list"
  rec_explanation :: string
  rec_match_score :: "rat option"

text \<open>Every raise of the source is a value of this type, carried in \<open>Inl\<close>.\<close>

datatype py_error =
    ValidationError
  | ValueError
  | KeyError
  | IndexError
  | TypeError
  | AttributeError
  | JSONDecodeError
  | ConnectionError
  | HTTPError
  | ZeroDivisionError
  | RecursionError

text \<open>
  Constructing a \<^verbatim>\<open>Recommendation\<close> from values of the declared types runs the
  constraints the class declares: \<^verbatim>\<open>rank: int = Field(..., ge=1)\<close> and
  \<^verbatim>\<open>match_score: Optional[float] = Field(None, ge=0.0, le=1.0)\<close>. A violated
  constraint raises \<^verbatim>\<open>ValidationError\<close>.
\<close>

definition mk_Recommendation ::
  "int \<Rightarrow> int \<Rightarrow> string \<Rightarrow> string \<Rightarrow> string \<Rightarrow> int \<Rightarrow> string list \<Rightarrow> string \<Rightarrow> rat option
    \<Rightarrow> py_error + Recommendation" where
  "mk_Recommendation rank cid title fmt difficulty duration tags explanation match_score =
     (if 1 \<le> rank \<and> (case match_score of None \<Rightarrow> True | Some s \<Rightarrow> 0 \<le> s \<and> s \<le> 1)
      then Inr \<lparr> rec_rank = rank, rec_id = cid, rec_title = title, rec_format = fmt,
                 rec_difficulty = difficulty, rec_duration_minutes = duration,
                 rec_tags = tags, rec_explanation = explanation,
                 rec_match_score = match_score \<rparr>
      else Inl ValidationError)"

section \<open>The ranker's result (app/llm\_ranker.py)\<close>

record RerankResult =
  rr_recommendations :: "Recommendation list"
  rr_reasoning_raw :: "string option"
  rr_method :: string

subsection \<open>Rule-based fallback\<close>

text \<open>\<^verbatim>\<open>_STYLE_FORMAT_MAP\<close>: the formats a learning style prefers.\<close>

fun STYLE_FORMAT_MAP :: "LearningStyle \<Rightarrow> ContentFormat list" where
  "STYLE_FORMAT_MAP VISUAL = [VIDEO]"
| "STYLE_FORMAT_MAP READING = [SLIDES, LECTURE]"
| "STYLE_FORMAT_MAP HANDS_ON = [VIDEO, LECTURE]"

text \<open>\<^verbatim>\<open>_DIFFICULTY_ORDER\<close>; every member of the enum is a key, so the default of
  \<^verbatim>\<open>.get(..., 1)\<close> is never taken.\<close>

fun DIFFICULTY_ORDER :: "Difficulty \<Rightarrow> int" where
  "DIFFICULTY_ORDER BEGINNER = 0"
| "DIFFICULTY_ORDER INTERMEDIATE = 1"
| "DIFFICULTY_ORDER ADVANCED = 2"

text \<open>\<^verbatim>\<open>sep.join(xs)\<close>.\<close>

fun join :: "string \<Rightarrow> string list \<Rightarrow> string" where
  "join sep [] = []"
| "join sep [x] = x"
| "join sep (x # y # ys) = x @ sep @ join sep (y # ys)"

text \<open>
  \<^verbatim>\<open>user_tags = set(profile.interest_tags)\<close>: a set, kept here as the list of its
  distinct elements.
\<close>

definition user_tags_of :: "UserProfile \<Rightarrow> string list" where
  "user_tags_of profile = remdups (up_interest_tags profile)"

text \<open>\<^verbatim>\<open>len(user_tags & set(item.tags)) / max(len(user_tags), 1)\<close>.\<close>

definition tag_overlap :: "UserProfile \<Rightarrow> ContentItem \<Rightarrow> rat" where
  "tag_overlap profile item =
     rat_of_nat (length (filter (\<lambda>t. t \<in> set (ci_tags item)) (user_tags_of profile)))
       / rat_of_nat (max (length (user_tags_of profile)) 1)"

definition format_bonus :: "UserProfile \<Rightarrow> ContentItem \<Rightarrow> rat" where
  "format_bonus profile item =
     (if ci_format item \<in> set (STYLE_FORMAT_MAP (up_learning_style profile))
      then 2 / 10 else 0)"

definition diff_penalty :: "UserProfile \<Rightarrow> ContentItem \<Rightarrow> rat" where
  "diff_penalty profile item =
     rat_of_int \<bar>DIFFICULTY_ORDER (ci_difficulty item)
                  - DIFFICULTY_ORDER (up_preferred_difficulty profile)\<bar> * (15 / 100)"

text \<open>The score of an item: overlap plus bonus minus penalty. The floats of the source
  are exact rationals here, so that a sum is not rounded to the nearest float.\<close>

definition item_score :: "UserProfile \<Rightarrow> ContentItem \<Rightarrow> rat" where
  "item_score profile item =
     tag_overlap profile item + format_bonus profile item - diff_penalty profile item"

text \<open>The two \<^verbatim>\<open>continue\<close> guards of the scoring loop: an item is kept when it
  is neither viewed nor over the daily budget.\<close>

definition kept :: "UserProfile \<Rightarrow> ContentItem \<Rightarrow> bool" where
  "kept profile item \<longleftrightarrow>
     \<not> (ci_id item \<in> set (up_viewed_content_ids profile))
     \<and> \<not> (ci_duration_minutes item > up_time_per_day profile)"

definition scored :: "UserProfile \<Rightarrow> ContentItem list \<Rightarrow> (rat \<times> ContentItem) list" where
  "scored profile candidates =
     map (\<lambda>item. (item_score profile item, item)) (filter (kept profile) candidates)"

text \<open>
  \<^verbatim>\<open>xs.sort(key=..., reverse=True)\<close>: descending by key, and stable (elements with
  equal keys keep their order). \<open>sort_key\<close> is the stable insertion sort of the
  library, ascending; the key is negated.
\<close>

definition sort_desc :: "('a \<Rightarrow> 'b::linordered_ab_group_add) \<Rightarrow> 'a list \<Rightarrow> 'a list" where
  "sort_desc key xs = sort_key (\<lambda>x. - key x) xs"

text \<open>
  \<^verbatim>\<open>round(score, 3)\<close>: the nearest multiple of 1/1000, a tie going to the even
  one (on the exact rational; the source rounds the float).
\<close>

definition round3 :: "rat \<Rightarrow> rat" where
  "round3 q =
     (let y = q * 1000; n = \<lfloor>y\<rfloor>; d = y - rat_of_int n
      in rat_of_int (if d < 1 / 2 then n
                     else if 1 / 2 < d then n + 1
                     else if even n then n else n + 1) / 1000)"

text \<open>
  The explanation of a rule-based pick. \<^verbatim>\<open>common = set(item.tags) & user_tags\<close> is a
  set, whose iteration order Python leaves open; the model lists the common tags in the
  item's order. How an f-string renders a member of a \<^verbatim>\<open>(str, Enum)\<close> class
  depends on the Python version; the model renders the member's value.
\<close>

definition rule_explanation :: "UserProfile \<Rightarrow> ContentItem \<Rightarrow> string" where
  "rule_explanation profile item =
     ''Matched on tags ('' @
     join '', '' (filter (\<lambda>t. t \<in> set (user_tags_of profile)) (remdups (ci_tags item))) @
     ''), format fits your '' @ learning_style_value (up_learning_style profile) @
     '' style, and difficulty is '' @ difficulty_value (ci_difficulty item) @ ''.''"

text \<open>
  The loop \<^verbatim>\<open>for rank, (score, item) in enumerate(scored[:3], start=1)\<close>: each pass
  constructs one Recommendation and appends it; a constructor that raises ends the loop
  and the function with that error.
\<close>

fun rule_recommendations ::
  "UserProfile \<Rightarrow> int \<Rightarrow> (rat \<times> ContentItem) list \<Rightarrow> py_error + Recommendation list" where
  "rule_recommendations profile rank [] = Inr []"
| "rule_recommendations profile rank ((score, item) # rest) =
     (case mk_Recommendation rank (ci_id item) (ci_title item)
             (content_format_value (ci_format item))
             (difficulty_value (ci_difficulty item))
             (ci_duration_minutes item) (ci_tags item)
             (rule_explanation profile item) (Some (round3 score)) of
        Inl e \<Rightarrow> Inl e
      | Inr r \<Rightarrow>
          (case rule_recommendations profile (rank + 1) rest of
             Inl e \<Rightarrow> Inl e
           | Inr rs \<Rightarrow> Inr (r # rs)))"

definition rule_based_rerank ::
  "UserProfile \<Rightarrow> ContentItem list \<Rightarrow> py_error + RerankResult" where
  "rule_based_rerank profile candidates =
     (case rule_recommendations profile 1
             (take 3 (sort_desc fst (scored profile candidates))) of
        Inl e \<Rightarrow> Inl e
      | Inr recs \<Rightarrow>
          Inr \<lparr> rr_recommendations = recs,
                rr_reasoning_raw =
                  Some ''Rule-based scoring: tag overlap + format match + difficulty proximity.'',
                rr_method = ''rule-based'' \<rparr>)"

subsection \<open>Decoded JSON\<close>

text \<open>
  The values \<^verbatim>\<open>json.loads\<close> and \<^verbatim>\<open>resp.json()\<close> produce. A decoded object is a
  \<^verbatim>\<open>dict\<close> with string keys, kept as an association list read by \<open>map_of\<close>.
\<close>

datatype json =
    JNull
  | JBool bool
  | JInt int
  | JFloat rat
  | JStr string
  | JArr "json list"
  | JObj "(string \<times> json) list"

text \<open>\<^verbatim>\<open>isinstance(x, dict)\<close>.\<close>

fun is_dict :: "json \<Rightarrow> bool" where
  "is_dict (JObj d) = True"
| "is_dict v = False"

text \<open>Python's truth value of a decoded value, as \<^verbatim>\<open>x or ""\<close> and \<^verbatim>\<open>if not x\<close> use it.\<close>

fun truthy :: "json \<Rightarrow> bool" where
  "truthy JNull = False"
| "truthy (JBool b) = b"
| "truthy (JInt n) = (n \<noteq> 0)"
| "truthy (JFloat q) = (q \<noteq> 0)"
| "truthy (JStr s) = (s \<noteq> [])"
| "truthy (JArr xs) = (xs \<noteq> [])"
| "truthy (JObj d) = (d \<noteq> [])"

text \<open>\<^verbatim>\<open>d.get(key)\<close> on a dict: \<^verbatim>\<open>None\<close> when the key is missing.\<close>

definition dict_get :: "(string \<times> json) list \<Rightarrow> string \<Rightarrow> json" where
  "dict_get d k = (case map_of d k of None \<Rightarrow> JNull | Some v \<Rightarrow> v)"

text \<open>\<^verbatim>\<open>d.get(key, default)\<close>.\<close>

definition dict_get_default :: "(string \<times> json) list \<Rightarrow> string \<Rightarrow> json \<Rightarrow> json" where
  "dict_get_default d k dflt = (case map_of d k of None \<Rightarrow> dflt | Some v \<Rightarrow> v)"

text \<open>\<^verbatim>\<open>v[key]\<close> with a string key, and \<^verbatim>\<open>v[0]\<close>, on any decoded value.\<close>

fun subscript_key :: "json \<Rightarrow> string \<Rightarrow> py_error + json" where
  "subscript_key (JObj d) k = (case map_of d k of None \<Rightarrow> Inl KeyError | Some v \<Rightarrow> Inr v)"
| "subscript_key v k = Inl TypeError"

fun subscript_0 :: "json \<Rightarrow> py_error + json" where
  "subscript_0 (JArr []) = Inl IndexError"
| "subscript_0 (JArr (x # xs)) = Inr x"
| "subscript_0 (JStr []) = Inl IndexError"
| "subscript_0 (JStr (c # cs)) = Inr (JStr [c])"
| "subscript_0 (JObj d) = Inl KeyError"
| "subscript_0 v = Inl TypeError"

subsection \<open>The chat-completion call\<close>

text \<open>
  Whitespace as \<^verbatim>\<open>str.strip()\<close> and the pattern \<^verbatim>\<open>\s\<close> see it, on the ASCII range:
  tab, line feed, vertical tab, form feed, carriage return, the four separators
  0x1C to 0x1F, and the space.
\<close>

definition isspace :: "char \<Rightarrow> bool" where
  "isspace c \<longleftrightarrow> (of_char c :: nat) \<in> {9, 10, 11, 12, 13, 28, 29, 30, 31, 32}"

definition strip :: "string \<Rightarrow> string" where
  "strip s = rev (dropWhile isspace (rev (dropWhile isspace s)))"

text \<open>\<^verbatim>\<open>s.startswith(p)\<close>.\<close>

definition startswith :: "string \<Rightarrow> string \<Rightarrow> bool" where
  "startswith s p \<longleftrightarrow> take (length p) s = p"

text \<open>
  \<^verbatim>\<open>re.sub(r"```(?:json)?\s*", "", text)\<close>: from the left, each run of three
  backticks is removed together with a following \<^verbatim>\<open>json\<close> and the whitespace after it.
\<close>

function sub_fences :: "string \<Rightarrow> string" where
  "sub_fences [] = []"
| "sub_fences (c # cs) =
     (if startswith (c # cs) [CHR 0x60, CHR 0x60, CHR 0x60]
      then sub_fences
             (dropWhile isspace
                (if startswith (drop 2 cs) ''json'' then drop 6 cs else drop 2 cs))
      else c # sub_fences cs)"
  by pat_completeness auto
termination
proof (relation "measure length")
  fix c :: char and cs :: string
  have "length (dropWhile isspace (if startswith (drop 2 cs) ''json'' then drop 6 cs else drop 2 cs))
          \<le> length cs"
    by (rule order_trans [OF length_dropWhile_le]) simp
  then show "(dropWhile isspace (if startswith (drop 2 cs) ''json'' then drop 6 cs else drop 2 cs),
               c # cs) \<in> measure length"
    by simp
qed simp_all

text \<open>\<^verbatim>\<open>text.replace("```", "")\<close>.\<close>

fun replace_fences :: "string \<Rightarrow> string" where
  "replace_fences (a # b # c # s) =
     (if a = CHR 0x60 \<and> b = CHR 0x60 \<and> c = CHR 0x60 then replace_fences s
      else a # replace_fences (b # c # s))"
| "replace_fences s = s"

text \<open>\<^verbatim>\<open>(message.get(key) or "").strip()\<close>: a falsy value gives the empty string, a
  non-empty string is stripped, and any other value has no \<^verbatim>\<open>strip\<close>.\<close>

definition text_field :: "json \<Rightarrow> py_error + string" where
  "text_field v =
     (if \<not> truthy v then Inr []
      else case v of JStr s \<Rightarrow> Inr (strip s) | _ \<Rightarrow> Inl AttributeError)"

text \<open>
  What the network gives back to \<^verbatim>\<open>requests.post\<close>: no response at all (the call
  raises), or a status code with the body as \<^verbatim>\<open>resp.json()\<close> decodes it (\<open>None\<close> when
  the body is not JSON). The reply is an input of the model: the prompt that is sent has
  no other effect on the ranker.
\<close>

datatype http_reply = NoResponse | Response int "json option"

text \<open>\<^verbatim>\<open>message.get\<close> exists on a dict only.\<close>

fun message_get :: "json \<Rightarrow> string \<Rightarrow> py_error + json" where
  "message_get (JObj d) k = Inr (dict_get d k)"
| "message_get v k = Inl AttributeError"

text \<open>Sequencing of steps that may raise.\<close>

fun bind_err :: "'e + 'a \<Rightarrow> ('a \<Rightarrow> 'e + 'b) \<Rightarrow> 'e + 'b" where
  "bind_err (Inl e) f = Inl e"
| "bind_err (Inr x) f = f x"

text \<open>\<^verbatim>\<open>_call_llm\<close>, returning \<^verbatim>\<open>(text, reasoning)\<close>.\<close>

definition call_llm :: "http_reply \<Rightarrow> py_error + (string \<times> string option)" where
  "call_llm reply =
     (case reply of
        NoResponse \<Rightarrow> Inl ConnectionError
      | Response status body \<Rightarrow>
          if 400 \<le> status \<and> status < 600 then Inl HTTPError
          else (case body of
            None \<Rightarrow> Inl JSONDecodeError
          | Some b \<Rightarrow>
              bind_err (subscript_key b ''choices'') (\<lambda>choices.
              bind_err (subscript_0 choices) (\<lambda>choice.
              bind_err (subscript_key choice ''message'') (\<lambda>message.
              bind_err (message_get message ''content'') (\<lambda>c.
              bind_err (text_field c) (\<lambda>content.
              bind_err (message_get message ''reasoning'') (\<lambda>r.
              bind_err (text_field r) (\<lambda>reasoning.
                let response_text = (if content \<noteq> [] then content else reasoning)
                in if response_text = [] then Inl ValueError
                   else Inr (strip (replace_fences (sub_fences response_text)),
                             (if reasoning \<noteq> [] then Some reasoning else None)))))))))))"

subsection \<open>Extraction of the JSON array\<close>

text \<open>
  The inner loop of \<^verbatim>\<open>_extract_json_array\<close>: from a position that holds an opening
  bracket, walk right with the nesting depth, and stop at the first position where the
  depth is back to zero. \<open>span_end depth s\<close> is the number of characters of \<open>s\<close> up to
  and including that position, or \<open>None\<close> when the walk reaches the end of the text.
\<close>

fun span_end :: "int \<Rightarrow> string \<Rightarrow> nat option" where
  "span_end depth [] = None"
| "span_end depth (c # cs) =
     (let depth' = (if c = CHR ''['' then depth + 1
                    else if c = CHR '']'' then depth - 1 else depth)
      in if depth' = 0 then Some 1 else map_option Suc (span_end depth' cs))"

text \<open>
  \<^verbatim>\<open>json.loads\<close> belongs to Python's library; it is a parameter \<open>loads\<close> of the
  model, which for a text returns the decoded value or raises: \<^verbatim>\<open>JSONDecodeError\<close> (a
  \<^verbatim>\<open>ValueError\<close>) for a text that is not JSON, and \<^verbatim>\<open>RecursionError\<close> for one
  that is nested deeper than the interpreter allows.

  The handler \<^verbatim>\<open>except (json.JSONDecodeError, ValueError)\<close> around the call takes the
  errors of these two classes; an error of any other class leaves the function.
\<close>

definition handled :: "py_error \<Rightarrow> bool" where
  "handled e \<longleftrightarrow> e = JSONDecodeError \<or> e = ValueError"

text \<open>The outer loop, on the text from position \<open>i\<close> on, with the running \<^verbatim>\<open>best\<close>.\<close>

fun extract_from ::
  "(string \<Rightarrow> py_error + json) \<Rightarrow> string \<Rightarrow> json list \<Rightarrow> py_error + json list" where
  "extract_from loads [] best = Inr best"
| "extract_from loads (c # cs) best =
     (if c \<noteq> CHR ''['' then extract_from loads cs best
      else case span_end 0 (c # cs) of
        None \<Rightarrow> extract_from loads cs best
      | Some n \<Rightarrow>
          (case loads (take n (c # cs)) of
             Inl e \<Rightarrow> if handled e then extract_from loads cs best else Inl e
           | Inr (JArr parsed) \<Rightarrow>
               if length best < length parsed \<and> list_all is_dict parsed
               then extract_from loads cs parsed
               else extract_from loads cs best
           | Inr v \<Rightarrow> extract_from loads cs best))"

definition extract_json_array ::
  "(string \<Rightarrow> py_error + json) \<Rightarrow> string \<Rightarrow> py_error + json list" where
  "extract_json_array loads raw = extract_from loads raw []"

subsection \<open>Mapping the decoded objects to Recommendations\<close>

text \<open>
  \<^verbatim>\<open>cand_map = {c.id: c for c in candidates}\<close>: of two candidates with one id, the
  later one stays.
\<close>

definition cand_map :: "ContentItem list \<Rightarrow> int \<Rightarrow> ContentItem option" where
  "cand_map candidates n = find (\<lambda>c. ci_id c = n) (rev candidates)"

text \<open>
  \<^verbatim>\<open>cand_map.get(cid)\<close> for a decoded value \<open>cid\<close>. The keys are ints. A list or a
  dict is unhashable and the lookup raises \<^verbatim>\<open>TypeError\<close>; a bool and a float equal
  to an int hash and compare as that int; \<^verbatim>\<open>None\<close> and a string equal no key.
\<close>

fun cand_map_get :: "ContentItem list \<Rightarrow> json \<Rightarrow> py_error + ContentItem option" where
  "cand_map_get candidates (JInt n) = Inr (cand_map candidates n)"
| "cand_map_get candidates (JBool b) = Inr (cand_map candidates (if b then 1 else 0))"
| "cand_map_get candidates (JFloat q) =
     Inr (if rat_of_int \<lfloor>q\<rfloor> = q then cand_map candidates \<lfloor>q\<rfloor> else None)"
| "cand_map_get candidates JNull = Inr None"
| "cand_map_get candidates (JStr s) = Inr None"
| "cand_map_get candidates (JArr xs) = Inl TypeError"
| "cand_map_get candidates (JObj d) = Inl TypeError"

text \<open>
  The Recommendation constructor receives decoded values here, and pydantic first
  brings each to the field's declared type (\<^verbatim>\<open>int\<close>, \<^verbatim>\<open>str\<close>, \<^verbatim>\<open>list[str]\<close>) or
  rejects it. Which mistyped values it converts is the library's matter, so the three
  conversions are parameters of the model.
\<close>

record validators =
  v_int :: "json \<Rightarrow> int option"
  v_str :: "json \<Rightarrow> string option"
  v_str_list :: "json \<Rightarrow> string list option"

text \<open>A validator that takes exactly the values of the declared type.\<close>

fun strict_int :: "json \<Rightarrow> int option" where
  "strict_int (JInt n) = Some n"
| "strict_int v = None"

fun strict_str :: "json \<Rightarrow> string option" where
  "strict_str (JStr s) = Some s"
| "strict_str v = None"

fun strict_str_list :: "json \<Rightarrow> string list option" where
  "strict_str_list (JArr xs) =
     (if list_all (\<lambda>x. strict_str x \<noteq> None) xs then Some (map (\<lambda>x. the (strict_str x)) xs)
      else None)"
| "strict_str_list v = None"

definition strict_validators :: validators where
  "strict_validators =
     \<lparr> v_int = strict_int, v_str = strict_str, v_str_list = strict_str_list \<rparr>"

text \<open>Whatever else a validator does, it takes a value of the declared type as it is.\<close>

definition accepts_typed :: "validators \<Rightarrow> bool" where
  "accepts_typed V \<longleftrightarrow>
     (\<forall>n. v_int V (JInt n) = Some n) \<and> (\<forall>s. v_str V (JStr s) = Some s)
     \<and> (\<forall>ts. v_str_list V (JArr (map JStr ts)) = Some ts)"

text \<open>The constructor on decoded values; \<^verbatim>\<open>match_score\<close> is not passed and stays
  \<^verbatim>\<open>None\<close>.\<close>

definition Recommendation_of_json ::
  "validators \<Rightarrow> int \<Rightarrow> json \<Rightarrow> json \<Rightarrow> json \<Rightarrow> json \<Rightarrow> json \<Rightarrow> json \<Rightarrow> json
     \<Rightarrow> py_error + Recommendation" where
  "Recommendation_of_json V rank cid title fmt difficulty duration tags explanation =
     (case (v_int V cid, v_str V title, v_str V fmt, v_str V difficulty,
            v_int V duration, v_str_list V tags, v_str V explanation) of
        (Some i, Some t, Some f, Some d, Some m, Some ts, Some e) \<Rightarrow>
          mk_Recommendation rank i t f d m ts e None
      | _ \<Rightarrow> Inl ValidationError)"

text \<open>One pass of the loop over \<^verbatim>\<open>enumerate(items[:3], start=1)\<close>.\<close>

fun parse_item :: "validators \<Rightarrow> ContentItem list \<Rightarrow> int \<Rightarrow> json \<Rightarrow> py_error + Recommendation" where
  "parse_item V candidates idx (JObj item) =
     (let cid = dict_get item ''id''
      in case cand_map_get candidates cid of
           Inl e \<Rightarrow> Inl e
         | Inr fallback \<Rightarrow>
             Recommendation_of_json V idx cid
               (dict_get_default item ''title''
                  (JStr (case fallback of Some c \<Rightarrow> ci_title c | None \<Rightarrow> [])))
               (dict_get_default item ''format''
                  (JStr (case fallback of Some c \<Rightarrow> content_format_value (ci_format c)
                                        | None \<Rightarrow> [])))
               (dict_get_default item ''difficulty''
                  (JStr (case fallback of Some c \<Rightarrow> difficulty_value (ci_difficulty c)
                                        | None \<Rightarrow> [])))
               (dict_get_default item ''duration_minutes''
                  (JInt (case fallback of Some c \<Rightarrow> ci_duration_minutes c | None \<Rightarrow> 0)))
               (dict_get_default item ''tags''
                  (JArr (map JStr (case fallback of Some c \<Rightarrow> ci_tags c | None \<Rightarrow> []))))
               (dict_get_default item ''explanation''
                  (JStr ''Recommended based on your profile.'')))"
| "parse_item V candidates idx v = Inl AttributeError"

fun parse_items ::
  "validators \<Rightarrow> ContentItem list \<Rightarrow> int \<Rightarrow> json list \<Rightarrow> py_error + Recommendation list" where
  "parse_items V candidates idx [] = Inr []"
| "parse_items V candidates idx (item # rest) =
     (case parse_item V candidates idx item of
        Inl e \<Rightarrow> Inl e
      | Inr r \<Rightarrow>
          (case parse_items V candidates (idx + 1) rest of
             Inl e \<Rightarrow> Inl e
           | Inr rs \<Rightarrow> Inr (r # rs)))"

text \<open>\<^verbatim>\<open>_parse_llm_response\<close>: an error of the extraction leaves it, no object
  raises \<^verbatim>\<open>ValueError\<close>, and the first three objects are mapped.\<close>

definition parse_llm_response ::
  "(string \<Rightarrow> py_error + json) \<Rightarrow> validators \<Rightarrow> string \<Rightarrow> ContentItem list
     \<Rightarrow> py_error + Recommendation list" where
  "parse_llm_response loads V raw candidates =
     (case extract_json_array loads raw of
        Inl e \<Rightarrow> Inl e
      | Inr items \<Rightarrow>
          if items = [] then Inl ValueError
          else parse_items V candidates 1 (take 3 items))"

subsection \<open>Public API\<close>

text \<open>
  The body of the \<^verbatim>\<open>try\<close> block of \<^verbatim>\<open>rerank\<close>. The prompt that
  \<^verbatim>\<open>_build_user_prompt\<close> assembles is a string for every profile and candidate list,
  and it goes to the network only, whose reply is the input \<open>reply\<close>.
\<close>

definition llm_rerank ::
  "(string \<Rightarrow> py_error + json) \<Rightarrow> validators \<Rightarrow> http_reply \<Rightarrow> ContentItem list
     \<Rightarrow> py_error + RerankResult" where
  "llm_rerank loads V reply candidates =
     bind_err (call_llm reply) (\<lambda>(response_text, reasoning).
     bind_err (parse_llm_response loads V response_text candidates) (\<lambda>recs.
       Inr \<lparr> rr_recommendations = recs, rr_reasoning_raw = reasoning, rr_method = ''llm'' \<rparr>))"

text \<open>
  \<^verbatim>\<open>rerank\<close>. \<open>api_key\<close> is \<^verbatim>\<open>LLM_API_KEY\<close>; the handler
  \<^verbatim>\<open>except Exception\<close> takes every error of the \<^verbatim>\<open>try\<close> block and returns what the
  rule-based ranker returns, an error of that call included.
\<close>

definition rerank ::
  "string \<Rightarrow> (string \<Rightarrow> py_error + json) \<Rightarrow> validators \<Rightarrow> http_reply
     \<Rightarrow> UserProfile \<Rightarrow> ContentItem list \<Rightarrow> py_error + RerankResult" where
  "rerank api_key loads V reply profile candidates =
     (if api_key = [] then rule_based_rerank profile candidates
      else case llm_rerank loads V reply candidates of
        Inr result \<Rightarrow> Inr result
      | Inl exc \<Rightarrow> rule_based_rerank profile candidates)"

section \<open>Retrieval (app/embeddings.py)\<close>

text \<open>An embedding is a vector of numbers; the floats of the source are exact reals here.\<close>

type_synonym vec = "real list"

text \<open>
  Modelled from the spec: \<^verbatim>\<open>cosine_similarity\<close> is a function of scikit-learn, which
  is not among the sources. The spec's words are "dot product of two vectors divided by
  the product of their magnitudes" and "cosine similarity of a zero vector against
  anything is defined as 0, not an error". The library's checks of its input (shapes,
  NaN) are left out. These are the dot product and the magnitude.
\<close>

definition dot :: "vec \<Rightarrow> vec \<Rightarrow> real" where
  "dot x y = sum_list (map (\<lambda>(a, b). a * b) (zip x y))"

definition magnitude :: "vec \<Rightarrow> real" where
  "magnitude x = sqrt (dot x x)"

text \<open>Modelled from the spec: the division of the cosine similarity, as a step that raises
  on a zero divisor, so that a division by zero is an error of the model and not the value
  HOL gives \<open>a / 0\<close>.\<close>

definition py_div :: "real \<Rightarrow> real \<Rightarrow> py_error + real" where
  "py_div a b = (if b = 0 then Inl ZeroDivisionError else Inr (a / b))"

text \<open>Modelled from the spec: the cosine similarity of two vectors, 0 when one of them has
  the magnitude zero.\<close>

definition cosine :: "vec \<Rightarrow> vec \<Rightarrow> py_error + real" where
  "cosine x y =
     (if magnitude x = 0 \<or> magnitude y = 0 then Inr 0
      else py_div (dot x y) (magnitude x * magnitude y))"

text \<open>Modelled from the spec: \<^verbatim>\<open>cosine_similarity(user_emb, content_embs)[0]\<close>, the
  similarity of the one user vector to every content vector, in order.\<close>

fun cosine_similarity :: "vec \<Rightarrow> vec list \<Rightarrow> py_error + real list" where
  "cosine_similarity user_emb [] = Inr []"
| "cosine_similarity user_emb (e # es) =
     (case cosine user_emb e of
        Inl err \<Rightarrow> Inl err
      | Inr s \<Rightarrow>
          (case cosine_similarity user_emb es of
             Inl err \<Rightarrow> Inl err
           | Inr ss \<Rightarrow> Inr (s # ss)))"

text \<open>\<^verbatim>\<open>xs[:k]\<close> for an int \<open>k\<close>: a negative \<open>k\<close> counts from the end.\<close>

definition py_take :: "int \<Rightarrow> 'a list \<Rightarrow> 'a list" where
  "py_take k xs = (if 0 \<le> k then take (nat k) xs else take (length xs - nat (- k)) xs)"

text \<open>
  \<^verbatim>\<open>retrieve_top_k\<close>. \<open>exclude_ids\<close> is a list or \<^verbatim>\<open>None\<close>. The comprehension reads
  \<^verbatim>\<open>items[idx]\<close> for every index of the similarity row, which raises
  \<^verbatim>\<open>IndexError\<close> when the row is longer than \<open>items\<close>.
\<close>

definition retrieve_top_k ::
  "vec \<Rightarrow> vec list \<Rightarrow> ContentItem list \<Rightarrow> int \<Rightarrow> int list option
     \<Rightarrow> py_error + ContentItem list" where
  "retrieve_top_k user_emb content_embs items k exclude_ids =
     (let excluded = set (case exclude_ids of None \<Rightarrow> [] | Some ids \<Rightarrow> ids)
      in case cosine_similarity user_emb content_embs of
           Inl err \<Rightarrow> Inl err
         | Inr similarities \<Rightarrow>
             if length items < length similarities then Inl IndexError
             else
               (let scored = filter (\<lambda>(idx, score). ci_id (items ! idx) \<notin> excluded)
                               (enumerate 0 similarities);
                    ranked = sort_desc snd scored
                in Inr (map (\<lambda>(idx, score). items ! idx) (py_take k ranked))))"

section \<open>The catalogue-embedding cache (app/recommender.py)\<close>

text \<open>\<^verbatim>\<open>_content_text\<close>: the text of an item that is embedded.\<close>

definition content_text :: "ContentItem \<Rightarrow> string" where
  "content_text item =
     ci_title item @ ''. '' @ ci_description item @ '' Tags: '' @ join '', '' (ci_tags item)"

text \<open>
  The embedding backend (the local model or the remote endpoint) is a parameter
  \<open>backend\<close>: it takes the texts and returns their vectors, or raises.
  \<^verbatim>\<open>get_content_embeddings\<close> sends it the texts of the items.
\<close>

definition get_content_embeddings ::
  "(string list \<Rightarrow> py_error + vec list) \<Rightarrow> ContentItem list \<Rightarrow> py_error + vec list" where
  "get_content_embeddings backend items = backend (map content_text items)"

text \<open>
  The module's two globals, and a log of the batches sent to the backend for the
  catalogue. The log is not in the source: it records the invocations, so that
  statements can count them.
\<close>

record cache_state =
  cached_content_embs :: "vec list option"
  cache_hash :: "int option"
  backend_calls :: "string list list"

definition initial_cache :: cache_state where
  "initial_cache = \<lparr> cached_content_embs = None, cache_hash = None, backend_calls = [] \<rparr>"

text \<open>
  \<^verbatim>\<open>_get_cached_content_embeddings\<close>. \<open>items\<close> is what \<^verbatim>\<open>get_all_content()\<close> returns
  at the call, and \<open>hash_ids\<close> is \<^verbatim>\<open>hash\<close> on the tuple of the ids. When the backend
  raises, the two globals keep their values.
\<close>

definition get_cached_content_embeddings ::
  "(int list \<Rightarrow> int) \<Rightarrow> (string list \<Rightarrow> py_error + vec list) \<Rightarrow> ContentItem list
     \<Rightarrow> cache_state \<Rightarrow> (py_error + vec list) \<times> cache_state" where
  "get_cached_content_embeddings hash_ids backend items st =
     (let current_hash = hash_ids (map ci_id items)
      in if cached_content_embs st = None \<or> cache_hash st \<noteq> Some current_hash
         then
           (let st' = st \<lparr> backend_calls := backend_calls st @ [map content_text items] \<rparr>
            in case get_content_embeddings backend items of
                 Inl err \<Rightarrow> (Inl err, st')
               | Inr embs \<Rightarrow>
                   (Inr embs, st' \<lparr> cached_content_embs := Some embs,
                                    cache_hash := Some current_hash \<rparr>))
         else (Inr (the (cached_content_embs st)), st))"

text \<open>
  Python's hash of an int, on a 64-bit build: the value modulo \<open>2^61 - 1\<close> with the sign
  kept, and \<open>-2\<close> in place of \<open>-1\<close>. The hash of a tuple is computed from the hashes of
  its elements, in order; the mixing function is a parameter \<open>mix\<close>.
\<close>

definition py_hash_int :: "int \<Rightarrow> int" where
  "py_hash_int n =
     (let h = sgn n * (\<bar>n\<bar> mod (2 ^ 61 - 1)) in if h = - 1 then - 2 else h)"

definition py_hash_tuple :: "(int list \<Rightarrow> int) \<Rightarrow> int list \<Rightarrow> int" where
  "py_hash_tuple mix ids = mix (map py_hash_int ids)"

section \<open>Balanced spans, stated apart from the scan\<close>

text \<open>
  The following definitions do not come from the source. They say in the spec's words
  what the extraction is to find, and the scan of the source is compared with them.

  The nesting depth after reading a text: the opening brackets minus the closing ones.
\<close>

definition nesting :: "string \<Rightarrow> int" where
  "nesting s = int (count_list s (CHR ''['')) - int (count_list s (CHR '']''))"

text \<open>
  The balanced span that starts at position \<open>i\<close> of a text: position \<open>i\<close> holds an
  opening bracket, and the span runs to the first position at which the depth, counted
  from \<open>i\<close>, is zero again. There is none when position \<open>i\<close> holds another character or
  the bracket is never closed.
\<close>

definition balanced_span_at :: "string \<Rightarrow> nat \<Rightarrow> string option" where
  "balanced_span_at raw i =
     (if i < length raw \<and> raw ! i = CHR ''[''
      then map_option (\<lambda>n. take n (drop i raw))
             (find (\<lambda>n. nesting (take n (drop i raw)) = 0) [1..<Suc (length raw - i)])
      else None)"

text \<open>Every balanced span of a text, by starting position.\<close>

definition balanced_spans :: "string \<Rightarrow> string list" where
  "balanced_spans raw = List.map_filter (balanced_span_at raw) [0..<length raw]"

text \<open>The list that a span parses into, when it parses into a list whose elements are
  all objects.\<close>

definition list_of_objects :: "py_error + json \<Rightarrow> json list option" where
  "list_of_objects v =
     (case v of
        Inr (JArr xs) \<Rightarrow> if list_all is_dict xs then Some xs else None
      | _ \<Rightarrow> None)"

definition valid_arrays :: "(string \<Rightarrow> py_error + json) \<Rightarrow> string \<Rightarrow> json list list" where
  "valid_arrays loads raw =
     List.map_filter (\<lambda>s. list_of_objects (loads s)) (balanced_spans raw)"

text \<open>The error with which the parser ends on a span, when it is one that the handler of
  the extraction does not take.\<close>

definition escaping :: "py_error + json \<Rightarrow> py_error option" where
  "escaping v = (case v of Inl e \<Rightarrow> if handled e then None else Some e | Inr x \<Rightarrow> None)"

text \<open>The errors of this kind over the balanced spans of a text, by starting position.\<close>

definition escaping_errors :: "(string \<Rightarrow> py_error + json) \<Rightarrow> string \<Rightarrow> py_error list" where
  "escaping_errors loads raw =
     List.map_filter (\<lambda>s. escaping (loads s)) (balanced_spans raw)"

text \<open>Of a new list and the best one so far, the longer; the best so far on a tie.\<close>

definition longer :: "json list \<Rightarrow> json list \<Rightarrow> json list" where
  "longer parsed best = (if length best < length parsed then parsed else best)"

section \<open>Data of the mock catalogue (app/data.py)\<close>

text \<open>The second persona of \<^verbatim>\<open>USER_PROFILES\<close>.\<close>

definition bob :: UserProfile where
  "bob = \<lparr> up_user_id = ''u2'', up_name = ''Bob'',
     up_goal = ''Transition from software engineering to data science and machine learning'',
     up_learning_style = HANDS_ON, up_preferred_difficulty = BEGINNER, up_time_per_day = 45,
     up_viewed_content_ids = [7],
     up_interest_tags = [''python'', ''data-science'', ''ml'', ''numpy''] \<rparr>"

text \<open>The first persona.\<close>

definition alice :: UserProfile where
  "alice = \<lparr> up_user_id = ''u1'', up_name = ''Alice'',
     up_goal = ''Learn to deploy ML models into production using Kubernetes and cloud platforms'',
     up_learning_style = VISUAL, up_preferred_difficulty = INTERMEDIATE, up_time_per_day = 60,
     up_viewed_content_ids = [1],
     up_interest_tags = [''ml'', ''deployment'', ''kubernetes'', ''docker''] \<rparr>"

text \<open>Items 4, 8 and 9 of \<^verbatim>\<open>CONTENT_ITEMS\<close>.\<close>

definition item_4 :: ContentItem where
  "item_4 = \<lparr> ci_id = 4, ci_title = ''MLOps Pipeline Design Patterns'',
     ci_description = ''Slide deck covering CI/CD for ML models, feature stores, model registries, and monitoring in production.'',
     ci_difficulty = ADVANCED, ci_duration_minutes = 30,
     ci_tags = [''mlops'', ''ci-cd'', ''deployment'', ''monitoring''], ci_format = SLIDES \<rparr>"

definition item_8 :: ContentItem where
  "item_8 = \<lparr> ci_id = 8, ci_title = ''Building REST APIs with FastAPI'',
     ci_description = ''Create production-ready REST APIs with FastAPI. Covers path parameters, Pydantic validation, async handlers, and OpenAPI docs.'',
     ci_difficulty = INTERMEDIATE, ci_duration_minutes = 40,
     ci_tags = [''fastapi'', ''python'', ''api'', ''backend''], ci_format = VIDEO \<rparr>"

definition item_9 :: ContentItem where
  "item_9 = \<lparr> ci_id = 9, ci_title = ''AI Model Deployment on AWS SageMaker'',
     ci_description = ''Step-by-step guide to packaging, deploying, and A/B testing ML models on AWS SageMaker with auto-scaling.'',
     ci_difficulty = ADVANCED, ci_duration_minutes = 55,
     ci_tags = [''aws'', ''sagemaker'', ''deployment'', ''ml''], ci_format = LECTURE \<rparr>"

section \<open>Example replies of the ranking model\<close>

text \<open>A double quote, and a word in double quotes.\<close>

definition dq :: string where
  "dq = [CHR 0x22]"

definition quoted :: "string \<Rightarrow> string" where
  "quoted s = dq @ s @ dq"

text \<open>A chat-completion response with status 200 whose message has the given content.\<close>

definition chat_reply :: "string \<Rightarrow> http_reply" where
  "chat_reply content =
     Response 200 (Some (JObj [(''choices'',
       JArr [JObj [(''message'', JObj [(''content'', JStr content)])]])]))"

text \<open>A parser given by a table of texts and their decoded values; it refuses every
  other text as not JSON.\<close>

definition loads_table :: "(string \<times> json) list \<Rightarrow> string \<Rightarrow> py_error + json" where
  "loads_table t s = (case map_of t s of None \<Rightarrow> Inl JSONDecodeError | Some v \<Rightarrow> Inr v)"

text \<open>The text \<^verbatim>\<open>[{"id": 7}]\<close> and what \<^verbatim>\<open>json.loads\<close> gives for it.\<close>

definition viewed_pick :: string where
  "viewed_pick = ''[{'' @ quoted ''id'' @ '': 7}]''"

definition viewed_pick_json :: json where
  "viewed_pick_json = JArr [JObj [(''id'', JInt 7)]]"

text \<open>The text \<^verbatim>\<open>[{"id": 9}, {}]\<close> and its decoded value: the second
  object has no id.\<close>

definition half_pick :: string where
  "half_pick = ''[{'' @ quoted ''id'' @ '': 9}, {}]''"

definition half_pick_json :: json where
  "half_pick_json = JArr [JObj [(''id'', JInt 9)], JObj []]"

text \<open>The text \<^verbatim>\<open>[{"rank": 3, "id": 4}, {"id": 8}, {"id": 9}, {"id": 4}]\<close> and its
  decoded value: four objects, the first with a rank of its own.\<close>

definition four_picks :: string where
  "four_picks =
     ''[{'' @ quoted ''rank'' @ '': 3, '' @ quoted ''id'' @ '': 4}, {'' @ quoted ''id''
     @ '': 8}, {'' @ quoted ''id'' @ '': 9}, {'' @ quoted ''id'' @ '': 4}]''"

definition four_picks_json :: json where
  "four_picks_json =
     JArr [JObj [(''rank'', JInt 3), (''id'', JInt 4)], JObj [(''id'', JInt 8)],
           JObj [(''id'', JInt 9)], JObj [(''id'', JInt 4)]]"

text \<open>The Recommendation that the remote path builds at a rank from an object that
  holds only the id of a candidate.\<close>

definition backfilled :: "int \<Rightarrow> ContentItem \<Rightarrow> Recommendation" where
  "backfilled rank c =
     \<lparr> rec_rank = rank, rec_id = ci_id c, rec_title = ci_title c,
       rec_format = content_format_value (ci_format c),
       rec_difficulty = difficulty_value (ci_difficulty c),
       rec_duration_minutes = ci_duration_minutes c, rec_tags = ci_tags c,
       rec_explanation = ''Recommended based on your profile.'',
       rec_match_score = None \<rparr>"

text \<open>What the rule-based ranker returns for Alice and the one candidate item 9.\<close>

definition alice_rule_result :: RerankResult where
  "alice_rule_result =
     \<lparr> rr_recommendations =
         [\<lparr> rec_rank = 1, rec_id = 9, rec_title = ''AI Model Deployment on AWS SageMaker'',
            rec_format = ''lecture'', rec_difficulty = ''Advanced'',
            rec_duration_minutes = 55,
            rec_tags = [''aws'', ''sagemaker'', ''deployment'', ''ml''],
            rec_explanation = rule_explanation alice item_9,
            rec_match_score = Some (35 / 100) \<rparr>],
       rr_reasoning_raw =
         Some ''Rule-based scoring: tag overlap + format match + difficulty proximity.'',
       rr_method = ''rule-based'' \<rparr>"

text \<open>A reply that wraps two arrays in prose, one of two objects and one of three, and
  what \<^verbatim>\<open>json.loads\<close> gives for the two spans.\<close>

definition two_arrays :: string where
  "two_arrays = ''Either [{}, {}] or, better, [{}, {}, {}].''"

definition two_arrays_loads :: "string \<Rightarrow> py_error + json" where
  "two_arrays_loads =
     loads_table [(''[{}, {}]'', JArr [JObj [], JObj []]),
                  (''[{}, {}, {}]'', JArr [JObj [], JObj [], JObj []])]"

text \<open>
  A parser with a bound on the nesting, as CPython's has one: a text that opens with
  more than \<open>limit\<close> brackets takes the decoder deeper than the limit, and it raises
  \<^verbatim>\<open>RecursionError\<close>; any other text goes to the parser \<open>base\<close>.
\<close>

definition bounded_loads ::
  "nat \<Rightarrow> (string \<Rightarrow> py_error + json) \<Rightarrow> string \<Rightarrow> py_error + json" where
  "bounded_loads limit base s =
     (if limit < length (takeWhile (\<lambda>c. c = CHR ''['') s) then Inl RecursionError
      else base s)"

text \<open>\<open>n\<close> opening brackets and then \<open>n\<close> closing ones: an array nested \<open>n\<close> deep.\<close>

definition deep :: "nat \<Rightarrow> string" where
  "deep n = replicate n (CHR ''['') @ replicate n (CHR '']'')"

text \<open>A reply that holds an array nested deeper than the limit and, after it, an array
  of one object.\<close>

definition deep_reply :: "nat \<Rightarrow> string" where
  "deep_reply limit = deep (Suc limit) @ '' [{}]''"

definition deep_reply_loads :: "nat \<Rightarrow> string \<Rightarrow> py_error + json" where
  "deep_reply_loads limit = bounded_loads limit (loads_table [(''[{}]'', JArr [JObj []])])"

section \<open>Example backend and hash for the cache\<close>

text \<open>A backend that embeds every text as one fixed vector, and a mixing function for
  the hash of a tuple; the statements about the cache hold for every backend and every
  hash, and these two serve the examples.\<close>

definition unit_backend :: "string list \<Rightarrow> py_error + vec list" where
  "unit_backend texts = Inr (map (\<lambda>t. [1, 0]) texts)"

definition example_mix :: "int list \<Rightarrow> int" where
  "example_mix hs = foldl (\<lambda>acc h. 31 * acc + h) 7 hs"

text \<open>The cache after a first run on a catalogue of the items 4 and 8.\<close>

definition warm_cache :: cache_state where
  "warm_cache =
     snd (get_cached_content_embeddings (py_hash_tuple example_mix) unit_backend
            [item_4, item_8] initial_cache)"


section \<open>The rule-based path\<close>

lemma set_sort_desc [simp]: "set (sort_desc key xs) = set xs"
  by (simp add: sort_desc_def)

lemma length_sort_desc [simp]: "length (sort_desc key xs) = length xs"
  by (simp add: sort_desc_def)

text \<open>The only error of the loop is the constructor's.\<close>

lemma rule_recommendations_error:
  "rule_recommendations profile rank xs = Inl e \<Longrightarrow> e = ValidationError"
  by (induction profile rank xs rule: rule_recommendations.induct)
     (auto simp: mk_Recommendation_def split: sum.splits if_splits)

lemma rule_recommendations_Inr:
  "rule_recommendations profile rank xs = Inr rs \<Longrightarrow>
     length rs = length xs \<and> map rec_id rs = map (\<lambda>p. ci_id (snd p)) xs"
  by (induction profile rank xs arbitrary: rs rule: rule_recommendations.induct)
     (auto simp: mk_Recommendation_def split: sum.splits if_splits)

text \<open>The loop returns exactly when every rounded score lies between 0 and 1.\<close>

lemma rule_recommendations_returns:
  "1 \<le> rank \<Longrightarrow> list_all (\<lambda>p. 0 \<le> round3 (fst p) \<and> round3 (fst p) \<le> 1) xs \<Longrightarrow>
     \<exists>rs. rule_recommendations profile rank xs = Inr rs"
  by (induction profile rank xs rule: rule_recommendations.induct)
     (auto simp: mk_Recommendation_def split: sum.splits if_splits)

lemma rule_recommendations_raises:
  "\<not> list_all (\<lambda>p. 0 \<le> round3 (fst p) \<and> round3 (fst p) \<le> 1) xs \<Longrightarrow>
     rule_recommendations profile rank xs = Inl ValidationError"
  by (induction profile rank xs rule: rule_recommendations.induct)
     (auto simp: mk_Recommendation_def split: sum.splits if_splits
           dest: rule_recommendations_error)

text \<open>When the rule-based ranker returns, its result is marked rule-based and holds one
  recommendation for each of the first three kept candidates.\<close>

lemma rule_based_rerank_Inr:
  assumes "rule_based_rerank profile candidates = Inr result"
  shows "rr_method result = ''rule-based''"
    and "rule_recommendations profile 1 (take 3 (sort_desc fst (scored profile candidates)))
           = Inr (rr_recommendations result)"
    and "length (rr_recommendations result) = min 3 (length (filter (kept profile) candidates))"
proof -
  from assms obtain recs where
    recs: "rule_recommendations profile 1 (take 3 (sort_desc fst (scored profile candidates)))
             = Inr recs"
    and res: "result = \<lparr> rr_recommendations = recs,
                rr_reasoning_raw =
                  Some ''Rule-based scoring: tag overlap + format match + difficulty proximity.'',
                rr_method = ''rule-based'' \<rparr>"
    by (auto simp: rule_based_rerank_def split: sum.splits)
  show "rr_method result = ''rule-based''" using res by simp
  show "rule_recommendations profile 1 (take 3 (sort_desc fst (scored profile candidates)))
          = Inr (rr_recommendations result)"
    using recs res by simp
  show "length (rr_recommendations result) = min 3 (length (filter (kept profile) candidates))"
    using rule_recommendations_Inr [OF recs] res by (simp add: scored_def min.commute)
qed

text \<open>The rule-based ranker returns exactly when the rounded score of each of the first
  three kept candidates lies between 0 and 1; with no kept candidate it returns the empty
  list.\<close>

lemma rule_based_rerank_returns_iff:
  "(\<exists>result. rule_based_rerank profile candidates = Inr result) \<longleftrightarrow>
     list_all (\<lambda>p. 0 \<le> round3 (fst p) \<and> round3 (fst p) \<le> 1)
       (take 3 (sort_desc fst (scored profile candidates)))"
proof
  assume "\<exists>result. rule_based_rerank profile candidates = Inr result"
  then show "list_all (\<lambda>p. 0 \<le> round3 (fst p) \<and> round3 (fst p) \<le> 1)
       (take 3 (sort_desc fst (scored profile candidates)))"
    using rule_recommendations_raises
      [of "take 3 (sort_desc fst (scored profile candidates))" profile 1]
    by (auto simp: rule_based_rerank_def split: sum.splits)
next
  assume "list_all (\<lambda>p. 0 \<le> round3 (fst p) \<and> round3 (fst p) \<le> 1)
       (take 3 (sort_desc fst (scored profile candidates)))"
  then obtain rs where
    "rule_recommendations profile 1 (take 3 (sort_desc fst (scored profile candidates)))
       = Inr rs"
    using rule_recommendations_returns [of 1] by blast
  then show "\<exists>result. rule_based_rerank profile candidates = Inr result"
    by (simp add: rule_based_rerank_def)
qed

lemma rule_based_rerank_none_kept:
  "filter (kept profile) candidates = [] \<Longrightarrow>
     \<exists>result. rule_based_rerank profile candidates = Inr result
       \<and> rr_recommendations result = []"
  by (simp add: rule_based_rerank_def scored_def sort_desc_def)

text \<open>A rule-based recommendation never names a viewed item.\<close>

lemma rule_based_rerank_not_viewed:
  assumes "rule_based_rerank profile candidates = Inr result"
    and "r \<in> set (rr_recommendations result)"
  shows "rec_id r \<notin> set (up_viewed_content_ids profile)"
proof -
  let ?top = "take 3 (sort_desc fst (scored profile candidates))"
  have recs: "rule_recommendations profile 1 ?top = Inr (rr_recommendations result)"
    by (rule rule_based_rerank_Inr(2) [OF assms(1)])
  have "set (map rec_id (rr_recommendations result)) = (\<lambda>p. ci_id (snd p)) ` set ?top"
    using rule_recommendations_Inr [OF recs] by (metis list.set_map)
  moreover have "set ?top \<subseteq> set (scored profile candidates)"
    using set_take_subset [of 3 "sort_desc fst (scored profile candidates)"] by simp
  ultimately have
    "set (map rec_id (rr_recommendations result))
       \<subseteq> (\<lambda>p. ci_id (snd p)) ` set (scored profile candidates)"
    by blast
  with assms(2) obtain item where "kept profile item" "rec_id r = ci_id item"
    by (auto simp: scored_def)
  then show ?thesis by (simp add: kept_def)
qed

text \<open>
  C2. The claim is that the rule-based path returns a result for every profile and
  candidate list. For the persona Bob and a candidate list holding item 4 of the
  catalogue it does not: the item is kept (not viewed, 30 minutes within 45), shares no
  tag with Bob, is not of a preferred format and is two difficulty steps away, so its
  score is \<open>0 + 0 - 0.3\<close>. The constructor of Recommendation is given
  \<open>match_score = -0.3\<close>, which the field's bound \<open>ge=0.0\<close> refuses, and the function
  ends with ValidationError.
\<close>

theorem rule_based_rerank_raises:
  "rule_based_rerank bob [item_4] = Inl ValidationError"
  by (simp add: rule_based_rerank_def scored_def kept_def bob_def item_4_def sort_desc_def
      item_score_def tag_overlap_def format_bonus_def diff_penalty_def user_tags_of_def
      round3_def mk_Recommendation_def)

section \<open>The remote path and its fallback\<close>

text \<open>Every error of the remote path ends in the rule-based call.\<close>

lemma rerank_fallback:
  "llm_rerank loads V reply candidates = Inl e \<Longrightarrow>
     rerank api_key loads V reply profile candidates = rule_based_rerank profile candidates"
  by (simp add: rerank_def)

text \<open>When the rule-based call returns after a failure of the remote path, its result is
  what \<^verbatim>\<open>rerank\<close> returns: marked rule-based, and not empty when a candidate is
  kept.\<close>

lemma rerank_fallback_returns:
  assumes "llm_rerank loads V reply candidates = Inl e"
    and "rule_based_rerank profile candidates = Inr result"
  shows "rerank api_key loads V reply profile candidates = Inr result"
    and "rr_method result = ''rule-based''"
    and "filter (kept profile) candidates \<noteq> [] \<Longrightarrow> rr_recommendations result \<noteq> []"
proof -
  show "rerank api_key loads V reply profile candidates = Inr result"
    using assms by (simp add: rerank_def)
  show "rr_method result = ''rule-based''"
    by (rule rule_based_rerank_Inr(1) [OF assms(2)])
  assume "filter (kept profile) candidates \<noteq> []"
  then have "0 < length (filter (kept profile) candidates)" by simp
  with rule_based_rerank_Inr(3) [OF assms(2)]
  have "0 < length (rr_recommendations result)" by simp
  then show "rr_recommendations result \<noteq> []" by simp
qed

text \<open>Failures of the remote path: no response, an error status, an empty response
  text, and a text without a valid array.\<close>

lemma llm_rerank_no_response:
  "llm_rerank loads V NoResponse candidates = Inl ConnectionError"
  by (simp add: llm_rerank_def call_llm_def)

lemma llm_rerank_error_status:
  "400 \<le> status \<Longrightarrow> status < 600 \<Longrightarrow>
     llm_rerank loads V (Response status body) candidates = Inl HTTPError"
  by (simp add: llm_rerank_def call_llm_def)

lemma llm_rerank_empty_text:
  "llm_rerank loads V (chat_reply []) candidates = Inl ValueError"
  by (simp add: llm_rerank_def call_llm_def chat_reply_def dict_get_def text_field_def)

lemma llm_rerank_no_array:
  "call_llm reply = Inr (response_text, reasoning) \<Longrightarrow>
   extract_json_array loads response_text = Inr [] \<Longrightarrow>
     llm_rerank loads V reply candidates = Inl ValueError"
  by (simp add: llm_rerank_def parse_llm_response_def)

text \<open>An error that leaves the extraction is an error of the remote path, which the
  handler of \<^verbatim>\<open>rerank\<close> takes as any other.\<close>

lemma llm_rerank_extraction_error:
  "call_llm reply = Inr (response_text, reasoning) \<Longrightarrow>
   extract_json_array loads response_text = Inl e \<Longrightarrow>
     llm_rerank loads V reply candidates = Inl e"
  by (simp add: llm_rerank_def parse_llm_response_def)

text \<open>
  C1. The claim is that after a failure of the remote path \<^verbatim>\<open>rerank\<close> returns the
  rule-based result, non-empty when eligible candidates exist. With a credential
  configured and a transport error, for Bob and the candidate item 4 (which is eligible:
  not viewed and within the time budget), the handler calls the rule-based ranker, that
  call raises ValidationError as in C2, and the error leaves \<^verbatim>\<open>rerank\<close>: no result
  is returned.
\<close>

theorem rerank_fallback_raises:
  "rerank ''hf_token'' loads V NoResponse bob [item_4] = Inl ValidationError"
  by (simp add: rerank_def llm_rerank_def call_llm_def rule_based_rerank_def scored_def kept_def
      bob_def item_4_def sort_desc_def item_score_def tag_overlap_def format_bonus_def
      diff_penalty_def user_tags_of_def round3_def mk_Recommendation_def)

text \<open>
  C3. The claim is that no Recommendation of the response names a viewed item, on either
  path. On the remote path the ids come from the model's reply and are not compared with
  the viewed list: Bob has viewed item 7, the reply is the array \<^verbatim>\<open>[{"id": 7}]\<close>,
  and \<^verbatim>\<open>rerank\<close> returns, by the method llm, one Recommendation with id 7.
\<close>

theorem rerank_llm_recommends_viewed:
  "map_sum (\<lambda>e. e) (\<lambda>res. (rr_method res, map rec_id (rr_recommendations res),
                           up_viewed_content_ids bob))
     (rerank ''hf_token'' (loads_table [(viewed_pick, viewed_pick_json)]) strict_validators
        (chat_reply viewed_pick) bob [item_4])
   = Inr (''llm'', [7], [7])"
  by (simp add: rerank_def llm_rerank_def call_llm_def chat_reply_def viewed_pick_def
      viewed_pick_json_def quoted_def dq_def bob_def
      dict_get_def dict_get_default_def text_field_def strip_def isspace_def startswith_def
      parse_llm_response_def extract_json_array_def loads_table_def handled_def
      Recommendation_of_json_def
      strict_validators_def mk_Recommendation_def cand_map_def item_4_def)

section \<open>Mapping the model's objects to Recommendations\<close>

text \<open>The loop keeps the order of the objects: the record at position \<open>i\<close> is built from
  the object at position \<open>i\<close>, with the index counted on from the start value.\<close>

lemma parse_items_Inr:
  "parse_items V candidates idx items = Inr recs \<Longrightarrow>
     length recs = length items \<and>
     (\<forall>i<length recs. parse_item V candidates (idx + int i) (items ! i) = Inr (recs ! i))"
proof (induction V candidates idx items arbitrary: recs rule: parse_items.induct)
  case (1 V candidates idx)
  then show ?case by simp
next
  case (2 V candidates idx item rest)
  from "2.prems" obtain r rs where
    r: "parse_item V candidates idx item = Inr r"
    and rs: "parse_items V candidates (idx + 1) rest = Inr rs"
    and recs: "recs = r # rs"
    by (auto split: sum.splits)
  from "2.IH" [OF r rs] have len: "length rs = length rest"
    and nth: "\<And>i. i < length rs \<Longrightarrow>
        parse_item V candidates (idx + 1 + int i) (rest ! i) = Inr (rs ! i)"
    by auto
  show ?case
  proof (intro conjI allI impI)
    show "length recs = length (item # rest)" using len recs by simp
  next
    fix i assume "i < length recs"
    then show "parse_item V candidates (idx + int i) ((item # rest) ! i) = Inr (recs ! i)"
      using r recs nth by (cases i) (auto simp: algebra_simps)
  qed
qed

lemma parse_item_rank:
  "parse_item V candidates idx item = Inr r \<Longrightarrow> rec_rank r = idx"
  by (cases item)
     (auto simp: Recommendation_of_json_def mk_Recommendation_def Let_def
           split: sum.splits option.splits if_splits)

lemma parse_llm_response_Inr:
  assumes "parse_llm_response loads V raw candidates = Inr recs"
  shows "\<exists>items. extract_json_array loads raw = Inr items
           \<and> length recs = min 3 (length items)
           \<and> (\<forall>i<length recs.
                 parse_item V candidates (int i + 1) (items ! i) = Inr (recs ! i))"
proof -
  from assms obtain items where
    ex: "extract_json_array loads raw = Inr items"
    and p: "parse_items V candidates 1 (take 3 items) = Inr recs"
    by (auto simp: parse_llm_response_def split: sum.splits if_splits)
  from parse_items_Inr [OF p] have len: "length recs = min 3 (length items)"
    by (simp add: min.commute)
  have "parse_item V candidates (int i + 1) (items ! i) = Inr (recs ! i)"
    if i: "i < length recs" for i
  proof -
    from i have "take 3 items ! i = items ! i" using len by simp
    moreover from parse_items_Inr [OF p] i
    have "parse_item V candidates (1 + int i) (take 3 items ! i) = Inr (recs ! i)"
      by blast
    ultimately show ?thesis by (simp add: add.commute)
  qed
  with ex len show ?thesis by blast
qed

text \<open>
  C7. When the parsing of the remote ranker's output returns, the extraction has
  returned, and the parsing returns one Recommendation for each of the first three
  extracted objects and no more, in their order, and the rank of the record at position
  \<open>i\<close> (counted from 0) is \<open>i + 1\<close>: the position in the output, whatever the object
  holds under "rank".
\<close>

theorem parse_llm_response_first_three:
  assumes "parse_llm_response loads V raw candidates = Inr recs"
  shows "\<exists>items. extract_json_array loads raw = Inr items
         \<and> length recs = min 3 (length items)
         \<and> (\<forall>i<length recs.
               parse_item V candidates (int i + 1) (items ! i) = Inr (recs ! i)
               \<and> rec_rank (recs ! i) = int i + 1)"
proof -
  from parse_llm_response_Inr [OF assms] obtain items where
    ex: "extract_json_array loads raw = Inr items"
    and len: "length recs = min 3 (length items)"
    and nth: "\<forall>i<length recs.
           parse_item V candidates (int i + 1) (items ! i) = Inr (recs ! i)"
    by blast
  from nth have "\<forall>i<length recs.
      parse_item V candidates (int i + 1) (items ! i) = Inr (recs ! i)
      \<and> rec_rank (recs ! i) = int i + 1"
    using parse_item_rank by blast
  with ex len show ?thesis by blast
qed

text \<open>For a reply of four objects, the first with \<^verbatim>\<open>"rank": 3\<close>, the records are those
  of the first three objects, with the ranks 1, 2 and 3.\<close>

theorem parse_llm_response_first_three_witness:
  "parse_llm_response (loads_table [(four_picks, four_picks_json)]) strict_validators four_picks
     [item_4, item_8, item_9]
     = Inr [backfilled 1 item_4, backfilled 2 item_8, backfilled 3 item_9]
   \<and> map_sum (\<lambda>e. e) length
       (extract_json_array (loads_table [(four_picks, four_picks_json)]) four_picks) = Inr 4
   \<and> map rec_rank [backfilled 1 item_4, backfilled 2 item_8, backfilled 3 item_9] = [1, 2, 3]
   \<and> rec_rank ([backfilled 1 item_4, backfilled 2 item_8, backfilled 3 item_9] ! 0) = int 0 + 1"
proof -
  let ?loads = "loads_table [(four_picks, four_picks_json)]"
  let ?recs = "[backfilled 1 item_4, backfilled 2 item_8, backfilled 3 item_9]"
  have h: "parse_llm_response ?loads strict_validators four_picks [item_4, item_8, item_9]
             = Inr ?recs"
    by (simp add: parse_llm_response_def extract_json_array_def loads_table_def handled_def
        four_picks_def
        four_picks_json_def quoted_def dq_def backfilled_def item_4_def item_8_def item_9_def
        dict_get_def dict_get_default_def Recommendation_of_json_def strict_validators_def
        mk_Recommendation_def cand_map_def)
  have n: "map_sum (\<lambda>e. e) length (extract_json_array ?loads four_picks) = Inr 4"
    by (simp add: extract_json_array_def loads_table_def handled_def four_picks_def
        four_picks_json_def quoted_def dq_def)
  have r: "map rec_rank ?recs = [1, 2, 3]"
    by (simp add: backfilled_def)
  have "0 < length ?recs" by simp
  with parse_llm_response_first_three [OF h]
  have "rec_rank (?recs ! 0) = int 0 + 1" by blast
  with h n r show ?thesis by simp
qed

section \<open>Missing fields\<close>

lemma find_Some_member: "find P xs = Some x \<Longrightarrow> x \<in> set xs \<and> P x"
  by (induction xs) (auto split: if_splits)

lemma cand_map_Some:
  "cand_map candidates n = Some c \<Longrightarrow> c \<in> set candidates \<and> ci_id c = n"
  using find_Some_member [of "\<lambda>c. ci_id c = n" "rev candidates" c]
  by (simp add: cand_map_def)

lemma cand_map_None:
  "cand_map candidates n = None \<longleftrightarrow> n \<notin> ci_id ` set candidates"
  by (auto simp: cand_map_def find_None_iff)

text \<open>A record that the constructor returns holds the validated arguments.\<close>

lemma Recommendation_of_json_Inr:
  "Recommendation_of_json V rank cid title fmt difficulty duration tags explanation = Inr r \<Longrightarrow>
     v_int V cid = Some (rec_id r) \<and> v_str V title = Some (rec_title r)
     \<and> v_str V fmt = Some (rec_format r) \<and> v_str V difficulty = Some (rec_difficulty r)
     \<and> v_int V duration = Some (rec_duration_minutes r)
     \<and> v_str_list V tags = Some (rec_tags r)
     \<and> v_str V explanation = Some (rec_explanation r)
     \<and> rec_rank r = rank \<and> rec_match_score r = None"
  by (auto simp: Recommendation_of_json_def mk_Recommendation_def
           split: option.splits if_splits)

lemma accepts_typed_strict: "accepts_typed strict_validators"
  by (simp add: accepts_typed_def strict_validators_def list_all_iff comp_def)

text \<open>
  C8, as the claim states it: a missing explanation would be back-filled from the
  matching candidate or defaulted to an empty value. For the object \<^verbatim>\<open>{"id": 4}\<close> and
  the candidate item 4 the explanation of the record is the fixed sentence of the
  source, which is not empty (and a candidate has no explanation to take it from).
\<close>

theorem parse_item_explanation_not_empty:
  "map_sum (\<lambda>e. e) rec_explanation
     (parse_item strict_validators [item_4] 1 (JObj [(''id'', JInt 4)]))
     = Inr ''Recommended based on your profile.''
   \<and> map_sum (\<lambda>e. e) (\<lambda>r. rec_explanation r = [])
     (parse_item strict_validators [item_4] 1 (JObj [(''id'', JInt 4)]))
     = Inr False"
  by (simp add: dict_get_def dict_get_default_def Recommendation_of_json_def
      strict_validators_def mk_Recommendation_def cand_map_def item_4_def)

text \<open>
  C8, amended. Let the validation take values of the declared types as they are, and let
  the mapping of an object return a record. Then the lookup of the object's id among the
  candidates returned; the candidate it found, if any, is one of the candidates and, for
  an integer id, has that id, and it found none only if no candidate has that id. A
  missing title, format, difficulty, duration or tag list is the found candidate's, and
  without a candidate the empty string, 0 or the empty list. A missing explanation is
  the sentence "Recommended based on your profile.".
\<close>

theorem parse_item_backfill:
  assumes "accepts_typed V"
    and "parse_item V candidates idx (JObj item) = Inr r"
  shows "\<exists>fallback.
     cand_map_get candidates (dict_get item ''id'') = Inr fallback
     \<and> (\<forall>c. fallback = Some c \<longrightarrow> c \<in> set candidates)
     \<and> (\<forall>n. dict_get item ''id'' = JInt n \<longrightarrow>
            (case fallback of Some c \<Rightarrow> ci_id c = n | None \<Rightarrow> n \<notin> ci_id ` set candidates))
     \<and> (map_of item ''title'' = None \<longrightarrow>
            rec_title r = (case fallback of Some c \<Rightarrow> ci_title c | None \<Rightarrow> []))
     \<and> (map_of item ''format'' = None \<longrightarrow>
            rec_format r = (case fallback of Some c \<Rightarrow> content_format_value (ci_format c)
                                           | None \<Rightarrow> []))
     \<and> (map_of item ''difficulty'' = None \<longrightarrow>
            rec_difficulty r = (case fallback of Some c \<Rightarrow> difficulty_value (ci_difficulty c)
                                               | None \<Rightarrow> []))
     \<and> (map_of item ''duration_minutes'' = None \<longrightarrow>
            rec_duration_minutes r = (case fallback of Some c \<Rightarrow> ci_duration_minutes c
                                                     | None \<Rightarrow> 0))
     \<and> (map_of item ''tags'' = None \<longrightarrow>
            rec_tags r = (case fallback of Some c \<Rightarrow> ci_tags c | None \<Rightarrow> []))
     \<and> (map_of item ''explanation'' = None \<longrightarrow>
            rec_explanation r = ''Recommended based on your profile.'')"
proof -
  from assms(2) obtain fallback where
    fb: "cand_map_get candidates (dict_get item ''id'') = Inr fallback"
    by (auto simp: Let_def split: sum.splits)
  have mem: "\<forall>c. fallback = Some c \<longrightarrow> c \<in> set candidates"
    using fb by (cases "dict_get item ''id''") (auto split: if_splits dest: cand_map_Some)
  have ident: "\<forall>n. dict_get item ''id'' = JInt n \<longrightarrow>
      (case fallback of Some c \<Rightarrow> ci_id c = n | None \<Rightarrow> n \<notin> ci_id ` set candidates)"
    using fb by (auto split: option.splits dest: cand_map_Some simp: cand_map_None)
  from assms(1) have vi: "\<And>n. v_int V (JInt n) = Some n"
    and vs: "\<And>s. v_str V (JStr s) = Some s"
    and vl: "\<And>ts. v_str_list V (JArr (map JStr ts)) = Some ts"
    by (simp_all add: accepts_typed_def)
  from assms(2) fb have built:
    "Recommendation_of_json V idx (dict_get item ''id'')
       (dict_get_default item ''title''
          (JStr (case fallback of Some c \<Rightarrow> ci_title c | None \<Rightarrow> [])))
       (dict_get_default item ''format''
          (JStr (case fallback of Some c \<Rightarrow> content_format_value (ci_format c) | None \<Rightarrow> [])))
       (dict_get_default item ''difficulty''
          (JStr (case fallback of Some c \<Rightarrow> difficulty_value (ci_difficulty c) | None \<Rightarrow> [])))
       (dict_get_default item ''duration_minutes''
          (JInt (case fallback of Some c \<Rightarrow> ci_duration_minutes c | None \<Rightarrow> 0)))
       (dict_get_default item ''tags''
          (JArr (map JStr (case fallback of Some c \<Rightarrow> ci_tags c | None \<Rightarrow> []))))
       (dict_get_default item ''explanation'' (JStr ''Recommended based on your profile.''))
     = Inr r"
    by (simp add: Let_def)
  note v = Recommendation_of_json_Inr [OF built]
  have t: "map_of item ''title'' = None \<longrightarrow>
      rec_title r = (case fallback of Some c \<Rightarrow> ci_title c | None \<Rightarrow> [])"
    using v vs by (auto simp: dict_get_default_def)
  have f: "map_of item ''format'' = None \<longrightarrow>
      rec_format r = (case fallback of Some c \<Rightarrow> content_format_value (ci_format c)
                                     | None \<Rightarrow> [])"
    using v vs by (auto simp: dict_get_default_def)
  have d: "map_of item ''difficulty'' = None \<longrightarrow>
      rec_difficulty r = (case fallback of Some c \<Rightarrow> difficulty_value (ci_difficulty c)
                                         | None \<Rightarrow> [])"
    using v vs by (auto simp: dict_get_default_def)
  have m: "map_of item ''duration_minutes'' = None \<longrightarrow>
      rec_duration_minutes r = (case fallback of Some c \<Rightarrow> ci_duration_minutes c | None \<Rightarrow> 0)"
    using v vi by (auto simp: dict_get_default_def)
  have g: "map_of item ''tags'' = None \<longrightarrow>
      rec_tags r = (case fallback of Some c \<Rightarrow> ci_tags c | None \<Rightarrow> [])"
    using v vl by (auto simp: dict_get_default_def)
  have e: "map_of item ''explanation'' = None \<longrightarrow>
      rec_explanation r = ''Recommended based on your profile.''"
    using v vs by (auto simp: dict_get_default_def)
  show ?thesis by (intro exI [of _ fallback] conjI fb mem ident t f d m g e)
qed

text \<open>The object \<^verbatim>\<open>{"id": 4}\<close> with the candidate item 4: every field but the id is
  missing, and the record is the candidate's data with the fixed explanation.\<close>

theorem parse_item_backfill_witness:
  "accepts_typed strict_validators
   \<and> parse_item strict_validators [item_4] 1 (JObj [(''id'', JInt 4)]) = Inr (backfilled 1 item_4)
   \<and> cand_map_get [item_4] (JInt 4) = Inr (Some item_4)
   \<and> rec_title (backfilled 1 item_4) = ci_title item_4
   \<and> rec_tags (backfilled 1 item_4) = ci_tags item_4
   \<and> rec_explanation (backfilled 1 item_4) = ''Recommended based on your profile.''"
proof -
  have h: "parse_item strict_validators [item_4] 1 (JObj [(''id'', JInt 4)])
             = Inr (backfilled 1 item_4)"
    by (simp add: dict_get_def dict_get_default_def Recommendation_of_json_def
        strict_validators_def mk_Recommendation_def cand_map_def item_4_def backfilled_def)
  have c: "cand_map_get [item_4] (JInt 4) = Inr (Some item_4)"
    by (simp add: cand_map_def item_4_def)
  from parse_item_backfill [OF accepts_typed_strict h] c
  have "rec_title (backfilled 1 item_4) = ci_title item_4
        \<and> rec_tags (backfilled 1 item_4) = ci_tags item_4
        \<and> rec_explanation (backfilled 1 item_4) = ''Recommended based on your profile.''"
    by (auto simp: dict_get_def)
  with accepts_typed_strict h c show ?thesis by simp
qed

section \<open>One path per result\<close>

text \<open>
  C10. A result of \<^verbatim>\<open>rerank\<close> comes from one path. Either its method is llm, a
  credential is configured, the call of the model returned a text, and the recommendations are the complete parse of that
  text, each one built from the extracted object at its position; or its method is
  rule-based, no credential is configured or the remote path ended in an error, and the
  result is the rule-based ranker's, whose loop over the first three scored candidates
  built every recommendation. In particular, when the parse fails after some objects
  were mapped, nothing of them is in the result.
\<close>

theorem rerank_single_path:
  assumes "rerank api_key loads V reply profile candidates = Inr result"
  shows "(rr_method result = ''llm'' \<and> api_key \<noteq> []
          \<and> (\<exists>response_text reasoning.
                call_llm reply = Inr (response_text, reasoning)
                \<and> parse_llm_response loads V response_text candidates
                    = Inr (rr_recommendations result)
                \<and> (\<exists>items. extract_json_array loads response_text = Inr items
                      \<and> (\<forall>i<length (rr_recommendations result).
                            parse_item V candidates (int i + 1) (items ! i)
                              = Inr (rr_recommendations result ! i)))))
       \<or> (rr_method result = ''rule-based''
          \<and> (api_key = [] \<or> (\<exists>e. llm_rerank loads V reply candidates = Inl e))
          \<and> rule_based_rerank profile candidates = Inr result
          \<and> rule_recommendations profile 1
                (take 3 (sort_desc fst (scored profile candidates)))
              = Inr (rr_recommendations result))"
proof (cases "api_key \<noteq> [] \<and> (\<exists>res. llm_rerank loads V reply candidates = Inr res)")
  case True
  then obtain res where res: "llm_rerank loads V reply candidates = Inr res" by blast
  with True assms have eq: "res = result" by (simp add: rerank_def)
  from res obtain response_text reasoning recs where
    call: "call_llm reply = Inr (response_text, reasoning)"
    and parse: "parse_llm_response loads V response_text candidates = Inr recs"
    and built: "res = \<lparr> rr_recommendations = recs, rr_reasoning_raw = reasoning,
                        rr_method = ''llm'' \<rparr>"
    unfolding llm_rerank_def
    by (cases "call_llm reply";
        cases "parse_llm_response loads V (fst (projr (call_llm reply))) candidates")
       (auto split: prod.splits)
  have recs: "rr_recommendations result = recs" and "rr_method result = ''llm''"
    using built eq by simp_all
  moreover have "\<exists>items. extract_json_array loads response_text = Inr items
      \<and> (\<forall>i<length recs. parse_item V candidates (int i + 1) (items ! i) = Inr (recs ! i))"
    using parse_llm_response_Inr [OF parse] by blast
  ultimately show ?thesis using call parse True by blast
next
  case False
  then have fail: "api_key = [] \<or> (\<exists>e. llm_rerank loads V reply candidates = Inl e)"
    by (cases "llm_rerank loads V reply candidates") auto
  with assms have rb: "rule_based_rerank profile candidates = Inr result"
    by (auto simp: rerank_def split: if_splits)
  from rule_based_rerank_Inr(1,2) [OF rb] fail rb show ?thesis by blast
qed

text \<open>
  The reply \<^verbatim>\<open>[{"id": 9}, {}]\<close> for Alice and the candidate item 9: the first object
  maps to a record, the second has no id and is refused, and the result is the rule-based
  one alone.
\<close>

theorem rerank_single_path_witness:
  "rerank ''hf_token'' (loads_table [(half_pick, half_pick_json)]) strict_validators
     (chat_reply half_pick) alice [item_9] = Inr alice_rule_result
   \<and> parse_item strict_validators [item_9] 1 (JObj [(''id'', JInt 9)])
       = Inr (backfilled 1 item_9)
   \<and> parse_item strict_validators [item_9] 2 (JObj []) = Inl ValidationError
   \<and> rr_method alice_rule_result = ''rule-based''
   \<and> rule_based_rerank alice [item_9] = Inr alice_rule_result"
proof -
  have h: "rerank ''hf_token'' (loads_table [(half_pick, half_pick_json)]) strict_validators
             (chat_reply half_pick) alice [item_9] = Inr alice_rule_result"
    by (simp add: rerank_def llm_rerank_def call_llm_def chat_reply_def quoted_def dq_def
        dict_get_def dict_get_default_def text_field_def strip_def isspace_def startswith_def
        parse_llm_response_def extract_json_array_def loads_table_def handled_def
        Recommendation_of_json_def
        strict_validators_def mk_Recommendation_def cand_map_def
        rule_based_rerank_def scored_def kept_def sort_desc_def
        item_score_def tag_overlap_def format_bonus_def diff_penalty_def user_tags_of_def
        round3_def
        half_pick_def half_pick_json_def alice_def item_9_def alice_rule_result_def)
  have m: "rr_method alice_rule_result = ''rule-based''"
    by (simp add: alice_rule_result_def)
  have p1: "parse_item strict_validators [item_9] 1 (JObj [(''id'', JInt 9)])
              = Inr (backfilled 1 item_9)"
    by (simp add: dict_get_def dict_get_default_def Recommendation_of_json_def
        strict_validators_def mk_Recommendation_def cand_map_def item_9_def backfilled_def)
  have p2: "parse_item strict_validators [item_9] 2 (JObj []) = Inl ValidationError"
    by (simp add: dict_get_def dict_get_default_def Recommendation_of_json_def
        strict_validators_def)
  from rerank_single_path [OF h] m
  have "rule_based_rerank alice [item_9] = Inr alice_rule_result" by auto
  with h m p1 p2 show ?thesis by simp
qed

section \<open>The extraction finds the longest list of objects\<close>

lemma nesting_Nil [simp]: "nesting [] = 0" by (simp add: nesting_def)
lemma nesting_Cons: "nesting (c # cs) = (if c = CHR ''['' then 1 else if c = CHR '']'' then - 1 else 0) + nesting cs"
  by (simp add: nesting_def)

lemma find_map: "find P (map f xs) = map_option f (find (\<lambda>x. P (f x)) xs)"
  by (induction xs) auto

lemma upt_1_Suc_Suc: "[1..<Suc (Suc n)] = 1 # map Suc [1..<Suc n]"
  by (simp add: map_Suc_upt upt_conv_Cons del: upt_Suc)

lemma span_end_find:
  "span_end d s = find (\<lambda>n. d + nesting (take n s) = 0) [1..<Suc (length s)]"
proof (induction s arbitrary: d)
  case Nil
  then show ?case by simp
next
  case (Cons c cs)
  show ?case
    unfolding length_Cons upt_1_Suc_Suc
    by (simp add: Cons.IH find_map nesting_Cons Let_def del: upt_Suc) (auto simp: algebra_simps)
qed


text \<open>The span at the start of a suffix, as the scan finds it.\<close>

lemma balanced_span_at_drop:
  assumes "i < length raw"
  shows "balanced_span_at raw i =
    (if hd (drop i raw) = CHR ''['' then map_option (\<lambda>n. take n (drop i raw)) (span_end 0 (drop i raw))
     else None)"
  using assms by (simp add: balanced_span_at_def span_end_find hd_drop_conv_nth)


lemma extract_from_Cons:
  "extract_from loads (c # cs) best =
     (case (if c = CHR ''['' then map_option (\<lambda>n. take n (c # cs)) (span_end 0 (c # cs))
            else None) of
        None \<Rightarrow> extract_from loads cs best
      | Some s \<Rightarrow>
          (case escaping (loads s) of
             Some e \<Rightarrow> Inl e
           | None \<Rightarrow>
               extract_from loads cs
                 (case list_of_objects (loads s) of
                    None \<Rightarrow> best
                  | Some parsed \<Rightarrow> longer parsed best)))"
  by (simp add: list_of_objects_def longer_def escaping_def
           split: option.splits json.splits sum.splits)

text \<open>
  The scan from position \<open>i\<close> on. When the parser ends on a balanced span with an error
  that the handler does not take, the scan ends with the first such error; otherwise it
  returns the longest of the valid arrays, the earliest one on a tie.
\<close>

lemma extract_from_fold:
  "extract_from loads (drop i raw) best =
     (case List.map_filter (\<lambda>s. escaping (loads s))
             (List.map_filter (balanced_span_at raw) [i..<length raw]) of
        [] \<Rightarrow>
          Inr (fold longer (List.map_filter (\<lambda>s. list_of_objects (loads s))
                 (List.map_filter (balanced_span_at raw) [i..<length raw])) best)
      | e # es \<Rightarrow> Inl e)"
proof (induction "length raw - i" arbitrary: i best)
  case 0
  then show ?case by (simp add: List.map_filter_simps)
next
  case (Suc k)
  then have i: "i < length raw" by simp
  then obtain c cs where d: "drop i raw = c # cs" and cs: "cs = drop (Suc i) raw"
    by (metis Cons_nth_drop_Suc)
  have k: "k = length raw - Suc i" using Suc.hyps(2) by simp
  have up: "[i..<length raw] = i # [Suc i..<length raw]" using i by (simp add: upt_conv_Cons)
  have sp: "balanced_span_at raw i =
    (if c = CHR ''['' then map_option (\<lambda>n. take n (c # cs)) (span_end 0 (c # cs)) else None)"
    using balanced_span_at_drop [OF i] d by simp
  show ?case
    unfolding d extract_from_Cons up
    by (simp only: cs Suc.hyps(1) [OF k] sp [symmetric, unfolded cs])
       (simp add: List.map_filter_simps split: option.splits list.splits)
qed

lemma extract_json_array_fold:
  "extract_json_array loads raw =
     (case escaping_errors loads raw of
        [] \<Rightarrow> Inr (fold longer (valid_arrays loads raw) [])
      | e # es \<Rightarrow> Inl e)"
  unfolding extract_json_array_def valid_arrays_def escaping_errors_def balanced_spans_def
  using extract_from_fold [of loads 0 raw "[]"] by simp

text \<open>The extraction returns exactly when no balanced span takes the parser to an error
  outside the handler's two classes.\<close>

lemma extract_json_array_returns_iff:
  "(\<exists>best. extract_json_array loads raw = Inr best) \<longleftrightarrow> escaping_errors loads raw = []"
  by (simp add: extract_json_array_fold split: list.splits)

lemma extract_json_array_raises:
  "escaping_errors loads raw = e # es \<Longrightarrow> extract_json_array loads raw = Inl e"
  by (simp add: extract_json_array_fold)

text \<open>An error outside the handler's classes on the span of the first bracket ends the
  scan.\<close>

lemma extract_from_raises:
  "span_end 0 (CHR ''['' # cs) = Some n \<Longrightarrow> loads (take n (CHR ''['' # cs)) = Inl e \<Longrightarrow>
     \<not> handled e \<Longrightarrow> extract_from loads (CHR ''['' # cs) best = Inl e"
  by (simp del: span_end.simps)

lemma fold_longer:
  "length best \<le> length (fold longer xss best)
   \<and> (\<forall>xs\<in>set xss. length xs \<le> length (fold longer xss best))
   \<and> (fold longer xss best = best \<or> fold longer xss best \<in> set xss)"
proof (induction xss arbitrary: best)
  case Nil
  then show ?case by simp
next
  case (Cons xs xss)
  from Cons.IH [of "longer xs best"] show ?case
    by (auto simp: longer_def split: if_splits)
qed

text \<open>The depth count on an array nested \<open>n\<close> deep is back at zero at its last bracket
  and not before.\<close>

lemma span_end_closing:
  "0 < d \<Longrightarrow> span_end d (replicate (nat d) (CHR '']'') @ rest) = Some (nat d)"
proof (induction "nat d" arbitrary: d)
  case 0
  then show ?case by simp
next
  case (Suc k)
  then have n: "nat d = Suc k" and k: "k = nat (d - 1)" by simp_all
  show ?case
  proof (cases "d = 1")
    case True
    then show ?thesis by simp
  next
    case False
    with Suc.prems have pos: "0 < d - 1" by simp
    from Suc.hyps(1) [OF k pos] have "span_end (d - 1) (replicate k (CHR '']'') @ rest) = Some k"
      using k by simp
    with False show ?thesis by (simp add: n Let_def)
  qed
qed

lemma span_end_opening:
  "0 \<le> d \<Longrightarrow> 0 < d + int n \<Longrightarrow>
     span_end d (replicate n (CHR ''['') @ replicate (nat d + n) (CHR '']'') @ rest)
       = Some (n + (nat d + n))"
proof (induction n arbitrary: d)
  case 0
  then show ?case using span_end_closing [of d rest] by simp
next
  case (Suc n)
  have "span_end (d + 1) (replicate n (CHR ''['') @ replicate (nat (d + 1) + n) (CHR '']'') @ rest)
          = Some (n + (nat (d + 1) + n))"
    using Suc.prems by (intro Suc.IH) simp_all
  moreover have "nat (d + 1) + n = nat d + Suc n" using Suc.prems by simp
  ultimately show ?case using Suc.prems by (simp add: Let_def)
qed

lemma span_end_deep:
  "span_end 0 (deep (Suc n) @ rest) = Some (length (deep (Suc n)))"
  using span_end_opening [of 0 "Suc n" rest] by (simp add: deep_def del: replicate_Suc)

lemma set_map_filter: "set (List.map_filter f xs) = {y. \<exists>x\<in>set xs. f x = Some y}"
  by (induction xs) (auto simp: List.map_filter_simps split: option.splits)

text \<open>
  C4, as the claim states it: for every input string the extraction returns the longest
  list of objects that a balanced span parses into. The parser of CPython raises
  \<^verbatim>\<open>RecursionError\<close> on a text nested deeper than the interpreter's limit, and the
  handler around the call takes \<^verbatim>\<open>JSONDecodeError\<close> and \<^verbatim>\<open>ValueError\<close> only.
  Whatever the limit is, from 1 on: for a text that starts with an array nested one level
  deeper than the limit and goes on with \<^verbatim>\<open>[{}]\<close>, the array of one object is among
  the lists that the balanced spans parse into, and the extraction returns no list, it
  ends with the error.
\<close>

theorem extract_json_array_recursion_error:
  "\<forall>n. extract_json_array (deep_reply_loads (Suc n)) (deep_reply (Suc n)) = Inl RecursionError
     \<and> [JObj []] \<in> set (valid_arrays (deep_reply_loads (Suc n)) (deep_reply (Suc n)))"
proof
  fix n
  define limit where "limit = Suc n"
  then have pos: "0 < limit" by simp
  let ?raw = "deep_reply limit" and ?loads = "deep_reply_loads limit"
  let ?n = "length (deep (Suc limit))"
  define cs where "cs = replicate limit (CHR ''['') @ replicate (Suc limit) (CHR '']'') @ '' [{}]''"
  have raw: "?raw = CHR ''['' # cs"
    by (simp add: deep_reply_def deep_def cs_def)
  have sp: "span_end 0 (CHR ''['' # cs) = Some ?n"
    unfolding raw [symmetric] deep_reply_def by (rule span_end_deep)
  have tk: "take ?n (CHR ''['' # cs) = deep (Suc limit)"
    unfolding raw [symmetric] by (simp add: deep_reply_def)
  have "takeWhile (\<lambda>c. c = CHR ''['') (deep (Suc limit)) = replicate (Suc limit) (CHR ''['')"
    unfolding deep_def by (subst takeWhile_append2) (simp_all del: replicate_Suc)
  then have err: "?loads (deep (Suc limit)) = Inl RecursionError"
    by (simp add: deep_reply_loads_def bounded_loads_def del: replicate_Suc)
  have "extract_from ?loads (CHR ''['' # cs) [] = Inl RecursionError"
  proof (rule extract_from_raises [OF sp])
    show "?loads (take ?n (CHR ''['' # cs)) = Inl RecursionError"
      unfolding tk by (rule err)
    show "\<not> handled RecursionError" by (simp add: handled_def)
  qed
  then have raises: "extract_json_array ?loads ?raw = Inl RecursionError"
    by (simp add: extract_json_array_def raw)
  let ?i = "Suc ?n"
  have dr: "drop ?i ?raw = ''[{}]''"
    by (simp add: deep_reply_def)
  have len: "length ?raw = ?n + 5"
    by (simp add: deep_reply_def)
  have nth: "?raw ! ?i = CHR ''[''"
    by (simp add: deep_reply_def nth_append)
  have up: "[1..<Suc (length ?raw - ?i)] = [1, 2, 3, 4]"
    unfolding len by (simp add: upt_conv_Cons)
  have "balanced_span_at ?raw ?i = Some ''[{}]''"
    unfolding balanced_span_at_def up dr using nth len by (simp add: nesting_def)
  moreover have "?i \<in> set [0..<length ?raw]" using len by simp
  ultimately have "''[{}]'' \<in> set (balanced_spans ?raw)"
    unfolding balanced_spans_def set_map_filter by blast
  moreover have "list_of_objects (?loads ''[{}]'') = Some [JObj []]"
    using pos
    by (simp add: deep_reply_loads_def bounded_loads_def loads_table_def list_of_objects_def)
  ultimately have "[JObj []] \<in> set (valid_arrays ?loads ?raw)"
    unfolding valid_arrays_def set_map_filter by blast
  with raises show "extract_json_array (deep_reply_loads (Suc n)) (deep_reply (Suc n))
       = Inl RecursionError
     \<and> [JObj []] \<in> set (valid_arrays (deep_reply_loads (Suc n)) (deep_reply (Suc n)))"
    unfolding limit_def by simp
qed

text \<open>
  C4, amended. For every text and every parser: when the parser ends on no balanced span
  of the text with an error outside the two classes of the handler, the extraction
  returns a list; that list is at least as long as every list of objects that a balanced
  span of the text parses into, and it is one of those lists, or the empty list when
  there is none. The balanced spans are those that the depth count finds, one for each
  opening bracket that is closed.
\<close>

theorem extract_json_array_longest:
  assumes "escaping_errors loads raw = []"
  shows "\<exists>best. extract_json_array loads raw = Inr best
           \<and> (\<forall>xs\<in>set (valid_arrays loads raw). length xs \<le> length best)
           \<and> (best = [] \<or> best \<in> set (valid_arrays loads raw))"
  using fold_longer [of "[]" "valid_arrays loads raw"] assms
  by (simp add: extract_json_array_fold)

text \<open>A text with an array of two objects and an array of three, and a parser that
  refuses what is not one of the two: the one of three is returned.\<close>

theorem extract_json_array_longest_witness:
  "escaping_errors two_arrays_loads two_arrays = []
   \<and> valid_arrays two_arrays_loads two_arrays
       = [[JObj [], JObj []], [JObj [], JObj [], JObj []]]
   \<and> extract_json_array two_arrays_loads two_arrays = Inr [JObj [], JObj [], JObj []]
   \<and> length [JObj [], JObj []] \<le> length [JObj [], JObj [], JObj []]
   \<and> [JObj [], JObj [], JObj []] \<in> set (valid_arrays two_arrays_loads two_arrays)"
proof -
  have h: "escaping_errors two_arrays_loads two_arrays = []"
    by code_simp
  have va: "valid_arrays two_arrays_loads two_arrays
     = [[JObj [], JObj []], [JObj [], JObj [], JObj []]]"
    by code_simp
  have ex: "extract_json_array two_arrays_loads two_arrays = Inr [JObj [], JObj [], JObj []]"
    by (simp add: extract_json_array_def two_arrays_def two_arrays_loads_def loads_table_def
        handled_def)
  from extract_json_array_longest [OF h]
  have "length [JObj [], JObj []] \<le> length [JObj [], JObj [], JObj []]"
    and "[JObj [], JObj [], JObj []] \<in> set (valid_arrays two_arrays_loads two_arrays)"
    unfolding va ex by auto
  with h va ex show ?thesis by simp
qed

section \<open>Retrieval\<close>

lemma cosine_Inr: "\<exists>s. cosine x y = Inr s"
  by (simp add: cosine_def py_div_def)

lemma cosine_similarity_Inr:
  "\<exists>sims. cosine_similarity u embs = Inr sims \<and> length sims = length embs
     \<and> (\<forall>i<length embs. cosine u (embs ! i) = Inr (sims ! i))"
proof (induction embs)
  case Nil
  then show ?case by simp
next
  case (Cons e es)
  then obtain ss where ss: "cosine_similarity u es = Inr ss" "length ss = length es"
    and nth: "\<And>i. i < length es \<Longrightarrow> cosine u (es ! i) = Inr (ss ! i)"
    by blast
  obtain s where s: "cosine u e = Inr s" using cosine_Inr by blast
  have "\<forall>i<length (e # es). cosine u ((e # es) ! i) = Inr ((s # ss) ! i)"
    using s nth by (auto simp: nth_Cons split: nat.splits)
  with s ss show ?case by simp
qed

text \<open>
  The stable descending sort, on pairs of an index and a score that come in the order of
  their indices: the result is ordered by score descending, and by index among equal
  scores.
\<close>

lemma insort_desc:
  fixes x :: "nat \<times> ('b::linordered_ab_group_add)"
  assumes "sorted_wrt (\<lambda>p q. snd q < snd p \<or> (snd p = snd q \<and> fst p < fst q)) ys"
    and "\<forall>y\<in>set ys. fst x < fst y"
  shows "sorted_wrt (\<lambda>p q. snd q < snd p \<or> (snd p = snd q \<and> fst p < fst q))
           (insort_key (\<lambda>p. - snd p) x ys)"
  using assms
proof (induction ys)
  case Nil
  then show ?case by simp
next
  case (Cons y ys)
  show ?case
  proof (cases "snd y \<le> snd x")
    case True
    then have "insort_key (\<lambda>p. - snd p) x (y # ys) = x # y # ys" by simp
    moreover have "\<forall>z\<in>set (y # ys). snd z < snd x \<or> (snd x = snd z \<and> fst x < fst z)"
      using True Cons.prems by fastforce
    ultimately show ?thesis using Cons.prems(1) by simp
  next
    case False
    then have "insort_key (\<lambda>p. - snd p) x (y # ys) = y # insort_key (\<lambda>p. - snd p) x ys"
      by simp
    moreover have "sorted_wrt (\<lambda>p q. snd q < snd p \<or> (snd p = snd q \<and> fst p < fst q))
           (insort_key (\<lambda>p. - snd p) x ys)"
      using Cons by simp
    moreover have "\<forall>z\<in>set (insort_key (\<lambda>p. - snd p) x ys).
        snd z < snd y \<or> (snd y = snd z \<and> fst y < fst z)"
      using False Cons.prems(1) by (auto simp: set_insort_key)
    ultimately show ?thesis by simp
  qed
qed

lemma sort_desc_stable:
  fixes xs :: "(nat \<times> ('b::linordered_ab_group_add)) list"
  assumes "sorted_wrt (<) (map fst xs)"
  shows "sorted_wrt (\<lambda>p q. snd q < snd p \<or> (snd p = snd q \<and> fst p < fst q))
           (sort_desc snd xs)"
  using assms
proof (induction xs)
  case Nil
  then show ?case by (simp add: sort_desc_def)
next
  case (Cons x xs)
  then have "sorted_wrt (\<lambda>p q. snd q < snd p \<or> (snd p = snd q \<and> fst p < fst q))
           (sort_desc snd xs)" by simp
  moreover have "\<forall>y\<in>set (sort_desc snd xs). fst x < fst y"
    using Cons.prems by (auto simp: sort_desc_def)
  ultimately show ?case
    using insort_desc [of "sort_desc snd xs" x] by (simp add: sort_desc_def)
qed


lemma py_take_nonneg: "0 \<le> k \<Longrightarrow> py_take k xs = take (nat k) xs"
  by (simp add: py_take_def)

lemma map_py_take: "map f (py_take k xs) = py_take k (map f xs)"
  by (simp add: py_take_def take_map)

text \<open>The indices that the source scores, in the order of the catalogue.\<close>

lemma map_fst_filter:
  "map fst (filter (\<lambda>(idx, score). P idx) xs) = filter P (map fst xs)"
  by (induction xs) auto

lemma map_fst_scored:
  "map fst (filter (\<lambda>(idx, score). P idx) (enumerate 0 sims)) = filter P [0..<length sims]"
  by (simp add: map_fst_filter)

lemma retrieve_top_k_Inr:
  assumes "0 \<le> k"
    and "retrieve_top_k user_emb content_embs items k exclude_ids = Inr out"
  shows "\<exists>sims idxs.
      cosine_similarity user_emb content_embs = Inr sims
    \<and> distinct idxs
    \<and> set idxs = {i. i < length sims \<and>
          ci_id (items ! i) \<notin> set (case exclude_ids of None \<Rightarrow> [] | Some ids \<Rightarrow> ids)}
    \<and> sorted_wrt (\<lambda>i j. sims ! j < sims ! i \<or> (sims ! i = sims ! j \<and> i < j)) idxs
    \<and> out = map (\<lambda>i. items ! i) (take (nat k) idxs)
    \<and> int (length out) \<le> k"
proof -
  define excluded where "excluded = set (case exclude_ids of None \<Rightarrow> [] | Some ids \<Rightarrow> ids)"
  obtain sims where sims: "cosine_similarity user_emb content_embs = Inr sims"
    using cosine_similarity_Inr by blast
  define scored where
    "scored = filter (\<lambda>(idx, score). ci_id (items ! idx) \<notin> excluded) (enumerate 0 sims)"
  define ranked where "ranked = sort_desc snd scored"
  define idxs where "idxs = map fst ranked"
  from assms(2) sims have out: "out = map (\<lambda>(idx, score). items ! idx) (py_take k ranked)"
    by (simp add: retrieve_top_k_def Let_def excluded_def scored_def ranked_def
             split: if_splits)
  have fst_scored: "map fst scored = filter (\<lambda>i. ci_id (items ! i) \<notin> excluded) [0..<length sims]"
    unfolding scored_def by (rule map_fst_scored)
  have snd_scored: "\<And>p. p \<in> set scored \<Longrightarrow> snd p = sims ! fst p"
    by (auto simp: scored_def in_set_enumerate_eq)
  have incr: "sorted_wrt (<) (map fst scored)"
    unfolding fst_scored by (rule sorted_wrt_filter) (rule sorted_wrt_upt)
  have dist_scored: "distinct (map fst scored)"
    unfolding fst_scored by simp
  have set_ranked: "set ranked = set scored" by (simp add: ranked_def)
  have d: "distinct idxs"
    using dist_scored set_ranked
    by (simp add: idxs_def ranked_def sort_desc_def distinct_map)
  have "set idxs = set (map fst scored)"
    by (simp add: idxs_def set_ranked)
  then have st: "set idxs = {i. i < length sims \<and> ci_id (items ! i) \<notin> excluded}"
    unfolding fst_scored by auto
  have "sorted_wrt (\<lambda>p q. snd q < snd p \<or> (snd p = snd q \<and> fst p < fst q)) ranked"
    unfolding ranked_def by (rule sort_desc_stable [OF incr])
  then have "sorted_wrt (\<lambda>p q. sims ! fst q < sims ! fst p
                 \<or> (sims ! fst p = sims ! fst q \<and> fst p < fst q)) ranked"
    by (rule sorted_wrt_mono_rel [rotated]) (simp add: snd_scored set_ranked)
  then have so: "sorted_wrt (\<lambda>i j. sims ! j < sims ! i \<or> (sims ! i = sims ! j \<and> i < j)) idxs"
    by (simp add: idxs_def sorted_wrt_map)
  have o: "out = map (\<lambda>i. items ! i) (take (nat k) idxs)"
    using out assms(1) by (auto simp: py_take_nonneg idxs_def take_map)
  have l: "int (length out) \<le> k" using o assms(1) by simp
  show ?thesis
    unfolding excluded_def [symmetric]
    by (intro exI [of _ sims] exI [of _ idxs] conjI sims d st so o l)
qed


text \<open>With one embedding for each item at most, the retrieval returns.\<close>

lemma retrieve_top_k_returns:
  assumes "length content_embs \<le> length items"
  shows "\<exists>out. retrieve_top_k user_emb content_embs items k exclude_ids = Inr out"
proof -
  obtain sims where "cosine_similarity user_emb content_embs = Inr sims"
    and "length sims = length content_embs"
    using cosine_similarity_Inr by blast
  with assms show ?thesis by (simp add: retrieve_top_k_def Let_def)
qed

text \<open>With more embeddings than items the read of \<^verbatim>\<open>items[idx]\<close> raises.\<close>

lemma retrieve_top_k_index_error:
  "retrieve_top_k [1, 0] [[1, 0], [0, 1]] [item_4] 5 None = Inl IndexError"
  by (simp add: retrieve_top_k_def cosine_def py_div_def magnitude_def dot_def)

text \<open>
  C5, as the claim states it, for every \<open>k\<close>: the output would never be longer than \<open>k\<close>.
  With \<open>k = -1\<close> the slice \<^verbatim>\<open>scored[:k]\<close> drops the last of three scored items and two
  are returned.
\<close>

theorem retrieve_top_k_negative_k:
  "map_sum (\<lambda>e. e) (\<lambda>out. (map ci_id out, int (length out) \<le> - 1))
     (retrieve_top_k [1, 0] [[1, 0], [0, 1], [1, 0]] [item_4, item_8, item_9] (- 1) None)
   = Inr ([4, 9], False)"
  by (simp add: retrieve_top_k_def cosine_def py_div_def magnitude_def dot_def sort_desc_def
      py_take_def enumerate_eq_zip upt_conv_Cons item_4_def item_8_def item_9_def)

text \<open>
  C5, amended to \<open>k \<ge> 0\<close>. With at most one embedding for each item, the retrieval
  returns the items at the first \<open>k\<close> indices of a list \<open>idxs\<close> that holds, once each,
  exactly the indices whose item is not excluded, ordered by similarity descending and,
  at equal similarity, by position in the catalogue. So the output holds no excluded
  item and is not longer than \<open>k\<close>.
\<close>

theorem retrieve_top_k_spec:
  assumes "0 \<le> k"
    and "length content_embs \<le> length items"
  shows "\<exists>out sims idxs.
      retrieve_top_k user_emb content_embs items k exclude_ids = Inr out
    \<and> cosine_similarity user_emb content_embs = Inr sims
    \<and> distinct idxs
    \<and> set idxs = {i. i < length sims \<and>
          ci_id (items ! i) \<notin> set (case exclude_ids of None \<Rightarrow> [] | Some ids \<Rightarrow> ids)}
    \<and> sorted_wrt (\<lambda>i j. sims ! j < sims ! i \<or> (sims ! i = sims ! j \<and> i < j)) idxs
    \<and> out = map (\<lambda>i. items ! i) (take (nat k) idxs)
    \<and> int (length out) \<le> k"
proof -
  obtain out where "retrieve_top_k user_emb content_embs items k exclude_ids = Inr out"
    using retrieve_top_k_returns [OF assms(2)] by blast
  with retrieve_top_k_Inr [OF assms(1) this] show ?thesis by blast
qed

text \<open>Three items with the similarities 0, 1 and 1, the second excluded: the third comes
  before the first.\<close>

theorem retrieve_top_k_spec_witness:
  "(0::int) \<le> 2
   \<and> length [[0, 1], [1, 0], [1, 0 :: real]] \<le> length [item_4, item_8, item_9]
   \<and> retrieve_top_k [1, 0] [[0, 1], [1, 0], [1, 0]] [item_4, item_8, item_9] 2 (Some [8])
       = Inr [item_9, item_4]
   \<and> cosine_similarity [1, 0] [[0, 1], [1, 0], [1, 0]] = Inr [0, 1, 1]
   \<and> int (length [item_9, item_4]) \<le> 2"
proof -
  have k: "(0::int) \<le> 2" by simp
  have l: "length [[0, 1], [1, 0], [1, 0 :: real]] \<le> length [item_4, item_8, item_9]"
    by simp
  have h: "retrieve_top_k [1, 0] [[0, 1], [1, 0], [1, 0]] [item_4, item_8, item_9] 2 (Some [8])
             = Inr [item_9, item_4]"
    by (simp add: retrieve_top_k_def cosine_def py_div_def magnitude_def dot_def sort_desc_def
        py_take_def enumerate_eq_zip upt_conv_Cons item_4_def item_8_def item_9_def)
  have c: "cosine_similarity [1, 0] [[0, 1], [1, 0], [1, 0]] = Inr [0, 1, 1]"
    by (simp add: cosine_def py_div_def magnitude_def dot_def)
  from retrieve_top_k_spec [OF k l, of "[1, 0]" "Some [8]"] h
  have "int (length [item_9, item_4]) \<le> 2" by auto
  with k l h c show ?thesis by simp
qed

lemma dot_zero: "list_all (\<lambda>a. a = 0) x \<Longrightarrow> dot x y = 0"
  unfolding dot_def by (induction x arbitrary: y) (auto simp: zip_Cons1 split: list.splits)

lemma cosine_zero: "list_all (\<lambda>a. a = 0) x \<Longrightarrow> cosine x y = Inr 0"
  by (simp add: cosine_def magnitude_def dot_zero)

lemma cosine_similarity_zero:
  "list_all (\<lambda>a. a = 0) u \<Longrightarrow> cosine_similarity u embs = Inr (replicate (length embs) 0)"
  by (induction embs) (simp_all add: cosine_zero)

lemma sort_key_const:
  "\<forall>x\<in>set xs. f x = c \<Longrightarrow> sort_key f xs = xs"
proof (induction xs)
  case Nil
  then show ?case by simp
next
  case (Cons x xs)
  then have "sort_key f (x # xs) = insort_key f x xs" by simp
  also have "\<dots> = x # xs" using Cons.prems by (cases xs) auto
  finally show ?case .
qed

lemma take_as_map_nth: "n \<le> length xs \<Longrightarrow> map (\<lambda>i. xs ! i) [0..<n] = take n xs"
  by (rule nth_equalityI) auto

text \<open>
  C9. For an all-zero user vector and at most one embedding for each item, the similarity
  to every candidate is 0, no step of the computation raises, and the retrieval returns:
  with all similarities equal, the stable sort keeps the catalogue order, and the output
  is the slice \<^verbatim>\<open>[:k]\<close> of the items that are not excluded.
\<close>

theorem retrieve_top_k_zero_user:
  assumes "list_all (\<lambda>a. a = 0) user_emb"
    and "length content_embs \<le> length items"
  shows "cosine_similarity user_emb content_embs = Inr (replicate (length content_embs) 0)
     \<and> retrieve_top_k user_emb content_embs items k exclude_ids
         = Inr (py_take k
                  (filter (\<lambda>item. ci_id item \<notin>
                              set (case exclude_ids of None \<Rightarrow> [] | Some ids \<Rightarrow> ids))
                     (take (length content_embs) items)))"
proof -
  define excluded where "excluded = set (case exclude_ids of None \<Rightarrow> [] | Some ids \<Rightarrow> ids)"
  define n where "n = length content_embs"
  define scored where
    "scored = filter (\<lambda>(idx, score). ci_id (items ! idx) \<notin> excluded)
                (enumerate 0 (replicate n (0::real)))"
  have sims: "cosine_similarity user_emb content_embs = Inr (replicate n 0)"
    unfolding n_def by (rule cosine_similarity_zero [OF assms(1)])
  have "\<forall>p\<in>set scored. - snd p = 0"
    by (auto simp: scored_def in_set_enumerate_eq)
  then have ranked: "sort_desc snd scored = scored"
    unfolding sort_desc_def by (rule sort_key_const)
  have "map (\<lambda>(idx, score). items ! idx) scored = map (\<lambda>i. items ! i) (map fst scored)"
    by auto
  also have "\<dots> = map (\<lambda>i. items ! i) (filter (\<lambda>i. ci_id (items ! i) \<notin> excluded) [0..<n])"
    unfolding scored_def by (simp add: map_fst_filter)
  also have "\<dots> = filter (\<lambda>item. ci_id item \<notin> excluded) (map (\<lambda>i. items ! i) [0..<n])"
    by (simp add: filter_map comp_def)
  also have "\<dots> = filter (\<lambda>item. ci_id item \<notin> excluded) (take n items)"
    using assms(2) by (simp add: take_as_map_nth n_def)
  finally have items: "map (\<lambda>(idx, score). items ! idx) scored
      = filter (\<lambda>item. ci_id item \<notin> excluded) (take n items)" .
  have "retrieve_top_k user_emb content_embs items k exclude_ids
      = Inr (map (\<lambda>(idx, score). items ! idx) (py_take k scored))"
    using sims assms(2) ranked
    by (simp add: retrieve_top_k_def Let_def excluded_def scored_def n_def)
  then have "retrieve_top_k user_emb content_embs items k exclude_ids
      = Inr (py_take k (filter (\<lambda>item. ci_id item \<notin> excluded) (take n items)))"
    by (simp add: map_py_take items)
  with sims show ?thesis by (simp add: excluded_def n_def)
qed

text \<open>A zero user vector, two items, the first excluded.\<close>

theorem retrieve_top_k_zero_user_witness:
  "list_all (\<lambda>a. a = 0) [0, 0 :: real]
   \<and> length [[1, 0], [0, 1 :: real]] \<le> length [item_4, item_8]
   \<and> cosine_similarity [0, 0] [[1, 0], [0, 1]] = Inr [0, 0]
   \<and> retrieve_top_k [0, 0] [[1, 0], [0, 1]] [item_4, item_8] 5 (Some [4]) = Inr [item_8]"
proof -
  have z: "list_all (\<lambda>a. a = 0) [0, 0 :: real]" by simp
  have l: "length [[1, 0], [0, 1 :: real]] \<le> length [item_4, item_8]" by simp
  from retrieve_top_k_zero_user [OF z l, of 5 "Some [4]"]
  have "cosine_similarity [0, 0] [[1, 0], [0, 1]] = Inr [0, 0]"
    and "retrieve_top_k [0, 0] [[1, 0], [0, 1]] [item_4, item_8] 5 (Some [4]) = Inr [item_8]"
    by (simp_all add: py_take_def item_4_def item_8_def)
  with z l show ?thesis by simp
qed

section \<open>The catalogue-embedding cache\<close>

text \<open>After a call that returned embeddings, the cache holds them under the hash of the
  ids of that call.\<close>

lemma get_cached_Inr:
  assumes "get_cached_content_embeddings hash_ids backend items st = (Inr embs, st1)"
  shows "cached_content_embs st1 = Some embs"
    and "cache_hash st1 = Some (hash_ids (map ci_id items))"
  using assms
  by (auto simp: get_cached_content_embeddings_def Let_def split: if_splits sum.splits)

text \<open>
  C6, amended. After a call that returned embeddings, a call on a catalogue whose id tuple
  has the same hash returns the cached embeddings and leaves the state as it is: the
  backend is not invoked. That is so in particular when the id tuple is the same,
  whatever was edited in the items' texts and whatever the backend would answer. A call
  on a catalogue whose id tuple has another hash invokes the backend, once, with the
  texts of that catalogue.
\<close>

theorem cache_keyed_by_hash:
  assumes "get_cached_content_embeddings hash_ids backend items st = (Inr embs, st1)"
  shows "(hash_ids (map ci_id items') = hash_ids (map ci_id items) \<longrightarrow>
            get_cached_content_embeddings hash_ids backend' items' st1 = (Inr embs, st1))
       \<and> (map ci_id items' = map ci_id items \<longrightarrow>
            get_cached_content_embeddings hash_ids backend' items' st1 = (Inr embs, st1))
       \<and> (hash_ids (map ci_id items') \<noteq> hash_ids (map ci_id items) \<longrightarrow>
            backend_calls (snd (get_cached_content_embeddings hash_ids backend' items' st1))
              = backend_calls st1 @ [map content_text items'])"
  using get_cached_Inr [OF assms]
  by (auto simp: get_cached_content_embeddings_def Let_def split: sum.splits)

text \<open>
  C6, as the claim states it: a changed id set would invoke the backend again. Python
  gives the ints \<open>-1\<close> and \<open>-2\<close> one hash, so the tuples \<^verbatim>\<open>(-1,)\<close> and \<^verbatim>\<open>(-2,)\<close>
  have one hash whatever the mixing of a tuple's hash is. After a run on a catalogue of
  one item with id \<open>-1\<close>, a run on a catalogue of another item with id \<open>-2\<close> does
  not invoke the backend: the log holds the first batch alone, and the embedding of the
  first catalogue is returned.
\<close>

theorem cache_hash_collision:
  "\<forall>mix.
     backend_calls
       (snd (get_cached_content_embeddings (py_hash_tuple mix) unit_backend
               [item_8 \<lparr> ci_id := - 2 \<rparr>]
               (snd (get_cached_content_embeddings (py_hash_tuple mix) unit_backend
                       [item_4 \<lparr> ci_id := - 1 \<rparr>] initial_cache))))
     = [[content_text (item_4 \<lparr> ci_id := - 1 \<rparr>)]]
   \<and> fst (get_cached_content_embeddings (py_hash_tuple mix) unit_backend
               [item_8 \<lparr> ci_id := - 2 \<rparr>]
               (snd (get_cached_content_embeddings (py_hash_tuple mix) unit_backend
                       [item_4 \<lparr> ci_id := - 1 \<rparr>] initial_cache)))
     = Inr [[1, 0]]
   \<and> set (map ci_id [item_8 \<lparr> ci_id := - 2 \<rparr>]) \<noteq> set (map ci_id [item_4 \<lparr> ci_id := - 1 \<rparr>])"
  by (simp add: get_cached_content_embeddings_def get_content_embeddings_def initial_cache_def
      unit_backend_def py_hash_tuple_def py_hash_int_def Let_def)


text \<open>A first run on the items 4 and 8; a second run after an edit of a description
  reuses the cache; a run on a catalogue with item 9 added invokes the backend.\<close>

theorem cache_keyed_by_hash_witness:
  "get_cached_content_embeddings (py_hash_tuple example_mix) unit_backend
       [item_4, item_8] initial_cache = (Inr [[1, 0], [1, 0]], warm_cache)
   \<and> length (backend_calls warm_cache) = 1
   \<and> get_cached_content_embeddings (py_hash_tuple example_mix) unit_backend
       [item_4 \<lparr> ci_description := ''Edited.'' \<rparr>, item_8] warm_cache
       = (Inr [[1, 0], [1, 0]], warm_cache)
   \<and> backend_calls
        (snd (get_cached_content_embeddings (py_hash_tuple example_mix) unit_backend
                [item_4, item_8, item_9] warm_cache))
       = backend_calls warm_cache @ [map content_text [item_4, item_8, item_9]]"
proof -
  let ?h = "py_hash_tuple example_mix"
  have h: "get_cached_content_embeddings ?h unit_backend [item_4, item_8] initial_cache
             = (Inr [[1, 0], [1, 0]], warm_cache)"
    by (simp add: warm_cache_def get_cached_content_embeddings_def get_content_embeddings_def
        initial_cache_def unit_backend_def Let_def)
  have n: "length (backend_calls warm_cache) = 1"
    by (simp add: warm_cache_def get_cached_content_embeddings_def get_content_embeddings_def
        initial_cache_def unit_backend_def Let_def)
  have same: "map ci_id [item_4 \<lparr> ci_description := ''Edited.'' \<rparr>, item_8]
                = map ci_id [item_4, item_8]"
    by simp
  have other: "?h (map ci_id [item_4, item_8, item_9]) \<noteq> ?h (map ci_id [item_4, item_8])"
    by (simp add: py_hash_tuple_def py_hash_int_def example_mix_def
        item_4_def item_8_def item_9_def)
  from cache_keyed_by_hash [OF h, of "[item_4 \<lparr> ci_description := ''Edited.'' \<rparr>, item_8]"
        unit_backend] same
  have a: "get_cached_content_embeddings ?h unit_backend
       [item_4 \<lparr> ci_description := ''Edited.'' \<rparr>, item_8] warm_cache
       = (Inr [[1, 0], [1, 0]], warm_cache)"
    by blast
  from cache_keyed_by_hash [OF h, of "[item_4, item_8, item_9]" unit_backend] other
  have b: "backend_calls
        (snd (get_cached_content_embeddings ?h unit_backend
                [item_4, item_8, item_9] warm_cache))
       = backend_calls warm_cache @ [map content_text [item_4, item_8, item_9]]"
    by blast
  from h n a b show ?thesis by simp
qed

end
